theory Spec2Isabelle
  imports Complex_Main "HOL-Library.Word" "HOL-Library.AList"
begin

unbundle bit_operations_syntax

section \<open>Conventions of the embedding\<close>

text \<open>
  The program is TypeScript running on Node. A \<^verbatim>\<open>Buffer\<close> is a list of bytes. A JavaScript
  \<^verbatim>\<open>number\<close> that holds an integer (offsets, sample values, line numbers, ids) is an
  \<^typ>\<open>int\<close>: a double holds every integer up to \<open>2 ^ 53\<close> in absolute value, and the rounding
  of larger ones is written out where the aggregator converts and adds 64-bit values.
  The bitwise operators of JavaScript work on 32-bit integers: their operands and results
  are \<^typ>\<open>32 word\<close>, read back as a signed number by \<^const>\<open>sint\<close> (\<^verbatim>\<open>|\<close>, \<^verbatim>\<open>&\<close>,
  \<^verbatim>\<open><<\<close>) or as an unsigned one by \<^const>\<open>uint\<close> (\<^verbatim>\<open>>>>\<close>). A JavaScript string is the
  list of the bytes of its UTF-8 encoding. Every \<^verbatim>\<open>throw\<close> is an \<open>Inl\<close>; a loop that the
  source does not bound returns \<open>None\<close> when it runs forever.
\<close>

type_synonym byte = "8 word"
type_synonym buffer = "byte list"

datatype error =
  InvalidVarint int  \<comment> \<open>\<^verbatim>\<open>Invalid varint at offset N: too many bytes\<close>\<close>

text \<open>
  Where the program turns a 64-bit \<^verbatim>\<open>bigint\<close> into a \<^verbatim>\<open>number\<close>, or adds and multiplies numbers that
  hold integers, the result is the double nearest to the exact integer, ties to the even
  significand: integers up to \<open>2 ^ 53\<close> in absolute value are kept, a larger one keeps its 53
  leading bits. The fields of a profile are 64-bit and an array has fewer than \<open>2 ^ 32\<close>
  elements, so no value of the program reaches the largest double, and \<^verbatim>\<open>Infinity\<close> is left out.
\<close>

function bitLength :: "nat \<Rightarrow> nat" where
  "bitLength n = (if n = 0 then 0 else Suc (bitLength (n div 2)))"
  by pat_completeness auto
termination
  by (relation "measure id") auto

declare bitLength.simps [simp del]

definition roundToDouble :: "int \<Rightarrow> int" where
  "roundToDouble x =
     (if \<bar>x\<bar> \<le> 2 ^ 53 then x
      else (let e = bitLength (nat \<bar>x\<bar>) - 53;
                q = \<bar>x\<bar> div 2 ^ e;
                r = \<bar>x\<bar> mod 2 ^ e;
                m = (if 2 ^ e < 2 * r \<or> (2 * r = 2 ^ e \<and> odd q) then q + 1 else q)
            in sgn x * (m * 2 ^ e)))"

section \<open>utils/pprofProtobuf.ts: the wire reader\<close>

subsection \<open>Buffer primitives of Node\<close>

text \<open>\<^verbatim>\<open>buffer[offset]\<close>: \<^verbatim>\<open>undefined\<close> outside the buffer.\<close>

definition buffer_at :: "buffer \<Rightarrow> int \<Rightarrow> byte option" where
  "buffer_at buffer offset =
     (if 0 \<le> offset \<and> offset < int (length buffer) then Some (buffer ! nat offset) else None)"

text \<open>The operand of a bitwise operator: \<^verbatim>\<open>undefined\<close> becomes 0.\<close>

definition ToInt32 :: "byte option \<Rightarrow> 32 word" where
  "ToInt32 b = (case b of None \<Rightarrow> 0 | Some x \<Rightarrow> ucast x)"

text \<open>\<^verbatim>\<open>buffer.slice(start, end)\<close>: negative indices count from the end, both are clamped.\<close>

definition adjustOffset :: "int \<Rightarrow> int \<Rightarrow> int" where
  "adjustOffset offset len =
     (if offset = 0 then 0
      else if offset < 0 then (if offset + len > 0 then offset + len else 0)
      else if offset < len then offset
      else len)"

definition slice :: "buffer \<Rightarrow> int \<Rightarrow> int \<Rightarrow> buffer" where
  "slice buffer start end =
     (let srcLength = int (length buffer);
          s = adjustOffset start srcLength;
          e = adjustOffset end srcLength
      in if e > s then take (nat (e - s)) (drop (nat s) buffer) else [])"

text \<open>
  \<^verbatim>\<open>value.toString('utf-8')\<close> on well-formed UTF-8: a string is kept as its UTF-8 bytes. (Node
  puts U+FFFD in the place of an ill-formed sequence; that is not modelled.)
\<close>

definition toString_utf8 :: "buffer \<Rightarrow> string" where
  "toString_utf8 buffer = map (\<lambda>b. char_of (unat b)) buffer"

subsection \<open>readVarint, readTag, readLengthDelimited, skipField\<close>

text \<open>
  The loop of \<^verbatim>\<open>readVarint\<close>. \<^verbatim>\<open>value |= (byte & 0x7f) << shift\<close> is a 32-bit operation, and
  \<^verbatim>\<open><<\<close> takes its shift count modulo 32. The result is the state on leaving the loop.
\<close>

function readVarint_loop :: "buffer \<Rightarrow> int \<Rightarrow> 32 word \<Rightarrow> nat \<Rightarrow> nat \<Rightarrow> 32 word \<times> int \<times> nat" where
  "readVarint_loop buffer offset val shift iterations =
     (if offset < int (length buffer) \<and> iterations < 10 then
        (let byte = ToInt32 (buffer_at buffer offset);
             val' = val OR push_bit (shift mod 32) (byte AND 0x7f)
         in if byte AND 0x80 = 0 then (val', offset + 1, iterations)
            else readVarint_loop buffer (offset + 1) val' (shift + 7) (iterations + 1))
      else (val, offset, iterations))"
  by pat_completeness auto
termination
  by (relation "measure (\<lambda>(buffer, offset, val, shift, iterations). 10 - iterations)") auto

declare readVarint_loop.simps [simp del]

definition readVarint :: "buffer \<Rightarrow> int \<Rightarrow> error + (int \<times> int)" where
  "readVarint buffer offset =
     (case readVarint_loop buffer offset 0 0 0 of
        (val, offset', iterations) \<Rightarrow>
          if iterations \<ge> 10 then Inl (InvalidVarint (offset' - int iterations))
          else Inr (sint val, offset'))"

text \<open>\<^verbatim>\<open>fieldNumber: value >>> 3, wireType: value & 0x7\<close>; the result is
  \<open>(fieldNumber, wireType, newOffset)\<close>.\<close>

definition readTag :: "buffer \<Rightarrow> int \<Rightarrow> error + (int \<times> int \<times> int)" where
  "readTag buffer offset =
     (case readVarint buffer offset of
        Inl e \<Rightarrow> Inl e
      | Inr (val, newOffset) \<Rightarrow>
          Inr (uint (drop_bit 3 (word_of_int val :: 32 word)),
               sint ((word_of_int val :: 32 word) AND 0x7),
               newOffset))"

definition readLengthDelimited :: "buffer \<Rightarrow> int \<Rightarrow> error + (buffer \<times> int)" where
  "readLengthDelimited buffer offset =
     (case readVarint buffer offset of
        Inl e \<Rightarrow> Inl e
      | Inr (len, newOffset) \<Rightarrow>
          Inr (slice buffer newOffset (newOffset + len), newOffset + len))"

definition skipField :: "buffer \<Rightarrow> int \<Rightarrow> int \<Rightarrow> error + int" where
  "skipField buffer offset wireType =
     (if wireType = 0 then map_sum id snd (readVarint buffer offset)
      else if wireType = 1 then Inr (offset + 8)
      else if wireType = 2 then map_sum id snd (readLengthDelimited buffer offset)
      else if wireType = 3 then Inr offset
      else if wireType = 4 then Inr offset
      else if wireType = 5 then Inr (offset + 4)
      else (case readVarint buffer offset of
              Inl e \<Rightarrow> Inr (offset + 1)
            | Inr (val, newOffset) \<Rightarrow> Inr newOffset))"

subsection \<open>The decoded entities\<close>

text \<open>
  The interfaces of \<^verbatim>\<open>pprofProtobuf.ts\<close>. The message types that the protobuf library
  generates from \<^verbatim>\<open>profile.proto\<close> have the same fields (with \<^verbatim>\<open>bigint\<close> for \<^verbatim>\<open>number\<close>), so
  the aggregator below reads the same records.
\<close>

record SampleType =
  st_type :: int
  st_unit :: int

record Label =
  lb_key :: int
  lb_str :: int
  lb_num :: int

record Sample =
  s_locationId :: "int list"
  s_value :: "int list"
  s_label :: "Label list"

record Mapping =
  m_id :: int
  m_memoryStart :: int
  m_memoryLimit :: int
  m_fileOffset :: int
  m_filename :: int
  m_buildId :: int

record Line =
  ln_functionId :: int
  ln_line :: int

record Location =
  loc_id :: int
  loc_mappingId :: int
  loc_address :: int
  loc_line :: "Line list"

record Function =
  fn_id :: int
  fn_name :: int
  fn_systemName :: int
  fn_filename :: int
  fn_startLine :: int

record PprofProfile =
  p_sampleType :: "SampleType list"
  p_sample :: "Sample list"
  p_mapping :: "Mapping list"
  p_location :: "Location list"
  p_function :: "Function list"
  p_stringTable :: "string list"
  p_timeNanos :: int
  p_durationNanos :: int
  p_period :: int

subsection \<open>Message parsers\<close>

partial_function (option) parseSampleType_loop ::
  "buffer \<Rightarrow> int \<Rightarrow> SampleType \<Rightarrow> (error + SampleType) option" where
  "parseSampleType_loop buffer offset result =
     (if offset < int (length buffer) then
        (case readTag buffer offset of
           Inl e \<Rightarrow> Some (Inl e)
         | Inr (fieldNumber, wireType, tagOffset) \<Rightarrow>
             (case readVarint buffer tagOffset of
                Inl e \<Rightarrow> Some (Inl e)
              | Inr (val, newOffset) \<Rightarrow>
                  parseSampleType_loop buffer newOffset
                    (if fieldNumber = 1 then result\<lparr>st_type := val\<rparr>
                     else if fieldNumber = 2 then result\<lparr>st_unit := val\<rparr>
                     else result)))
      else Some (Inr result))"

declare parseSampleType_loop.simps [code]

definition parseSampleType :: "buffer \<Rightarrow> (error + SampleType) option" where
  "parseSampleType buffer = parseSampleType_loop buffer 0 \<lparr>st_type = 0, st_unit = 0\<rparr>"

text \<open>The inner loop over a packed repeated field; \<open>acc\<close> is the array pushed to.\<close>

partial_function (option) readPacked ::
  "buffer \<Rightarrow> int \<Rightarrow> int list \<Rightarrow> (error + int list) option" where
  "readPacked packedData packedOffset acc =
     (if packedOffset < int (length packedData) then
        (case readVarint packedData packedOffset of
           Inl e \<Rightarrow> Some (Inl e)
         | Inr (val, newPackedOffset) \<Rightarrow> readPacked packedData newPackedOffset (acc @ [val]))
      else Some (Inr acc))"

declare readPacked.simps [code]

partial_function (option) parseSample_loop ::
  "buffer \<Rightarrow> int \<Rightarrow> Sample \<Rightarrow> (error + Sample) option" where
  "parseSample_loop buffer offset result =
     (if offset < int (length buffer) then
        (case readTag buffer offset of
           Inl e \<Rightarrow> Some (Inl e)
         | Inr (fieldNumber, wireType, tagOffset) \<Rightarrow>
             if fieldNumber = 1 then
               (if wireType = 2 then
                  (case readLengthDelimited buffer tagOffset of
                     Inl e \<Rightarrow> Some (Inl e)
                   | Inr (packedData, newOffset) \<Rightarrow>
                       (case readPacked packedData 0 (s_locationId result) of
                          None \<Rightarrow> None
                        | Some (Inl e) \<Rightarrow> Some (Inl e)
                        | Some (Inr ids) \<Rightarrow>
                            parseSample_loop buffer newOffset (result\<lparr>s_locationId := ids\<rparr>)))
                else
                  (case readVarint buffer tagOffset of
                     Inl e \<Rightarrow> Some (Inl e)
                   | Inr (val, newOffset) \<Rightarrow>
                       parseSample_loop buffer newOffset
                         (result\<lparr>s_locationId := s_locationId result @ [val]\<rparr>)))
             else if fieldNumber = 2 then
               (if wireType = 2 then
                  (case readLengthDelimited buffer tagOffset of
                     Inl e \<Rightarrow> Some (Inl e)
                   | Inr (packedData, newOffset) \<Rightarrow>
                       (case readPacked packedData 0 (s_value result) of
                          None \<Rightarrow> None
                        | Some (Inl e) \<Rightarrow> Some (Inl e)
                        | Some (Inr vals) \<Rightarrow>
                            parseSample_loop buffer newOffset (result\<lparr>s_value := vals\<rparr>)))
                else
                  (case readVarint buffer tagOffset of
                     Inl e \<Rightarrow> Some (Inl e)
                   | Inr (val, newOffset) \<Rightarrow>
                       parseSample_loop buffer newOffset
                         (result\<lparr>s_value := s_value result @ [val]\<rparr>)))
             else
               (case skipField buffer tagOffset wireType of
                  Inl e \<Rightarrow> Some (Inl e)
                | Inr newOffset \<Rightarrow> parseSample_loop buffer newOffset result))
      else Some (Inr result))"

declare parseSample_loop.simps [code]

definition parseSample :: "buffer \<Rightarrow> (error + Sample) option" where
  "parseSample buffer =
     parseSample_loop buffer 0 \<lparr>s_locationId = [], s_value = [], s_label = []\<rparr>"

partial_function (option) parseMapping_loop ::
  "buffer \<Rightarrow> int \<Rightarrow> Mapping \<Rightarrow> (error + Mapping) option" where
  "parseMapping_loop buffer offset result =
     (if offset < int (length buffer) then
        (case readTag buffer offset of
           Inl e \<Rightarrow> Some (Inl e)
         | Inr (fieldNumber, wireType, tagOffset) \<Rightarrow>
             (case readVarint buffer tagOffset of
                Inl e \<Rightarrow> Some (Inl e)
              | Inr (val, newOffset) \<Rightarrow>
                  parseMapping_loop buffer newOffset
                    (if fieldNumber = 1 then result\<lparr>m_id := val\<rparr>
                     else if fieldNumber = 2 then result\<lparr>m_memoryStart := val\<rparr>
                     else if fieldNumber = 3 then result\<lparr>m_memoryLimit := val\<rparr>
                     else if fieldNumber = 4 then result\<lparr>m_fileOffset := val\<rparr>
                     else if fieldNumber = 5 then result\<lparr>m_filename := val\<rparr>
                     else if fieldNumber = 6 then result\<lparr>m_buildId := val\<rparr>
                     else result)))
      else Some (Inr result))"

declare parseMapping_loop.simps [code]

definition parseMapping :: "buffer \<Rightarrow> (error + Mapping) option" where
  "parseMapping buffer =
     parseMapping_loop buffer 0
       \<lparr>m_id = 0, m_memoryStart = 0, m_memoryLimit = 0, m_fileOffset = 0, m_filename = 0,
        m_buildId = 0\<rparr>"

partial_function (option) parseLine_loop ::
  "buffer \<Rightarrow> int \<Rightarrow> Line \<Rightarrow> (error + Line) option" where
  "parseLine_loop buffer offset result =
     (if offset < int (length buffer) then
        (case readTag buffer offset of
           Inl e \<Rightarrow> Some (Inl e)
         | Inr (fieldNumber, wireType, tagOffset) \<Rightarrow>
             (case readVarint buffer tagOffset of
                Inl e \<Rightarrow> Some (Inl e)
              | Inr (val, newOffset) \<Rightarrow>
                  parseLine_loop buffer newOffset
                    (if fieldNumber = 1 then result\<lparr>ln_functionId := val\<rparr>
                     else if fieldNumber = 2 then result\<lparr>ln_line := val\<rparr>
                     else result)))
      else Some (Inr result))"

declare parseLine_loop.simps [code]

definition parseLine :: "buffer \<Rightarrow> (error + Line) option" where
  "parseLine buffer = parseLine_loop buffer 0 \<lparr>ln_functionId = 0, ln_line = 0\<rparr>"

partial_function (option) parseLocation_loop ::
  "buffer \<Rightarrow> int \<Rightarrow> Location \<Rightarrow> (error + Location) option" where
  "parseLocation_loop buffer offset result =
     (if offset < int (length buffer) then
        (case readTag buffer offset of
           Inl e \<Rightarrow> Some (Inl e)
         | Inr (fieldNumber, wireType, tagOffset) \<Rightarrow>
             if fieldNumber = 1 then
               (case readVarint buffer tagOffset of
                  Inl e \<Rightarrow> Some (Inl e)
                | Inr (val, newOffset) \<Rightarrow>
                    parseLocation_loop buffer newOffset (result\<lparr>loc_id := val\<rparr>))
             else if fieldNumber = 2 then
               (case readVarint buffer tagOffset of
                  Inl e \<Rightarrow> Some (Inl e)
                | Inr (val, newOffset) \<Rightarrow>
                    parseLocation_loop buffer newOffset (result\<lparr>loc_mappingId := val\<rparr>))
             else if fieldNumber = 3 then
               (case readVarint buffer tagOffset of
                  Inl e \<Rightarrow> Some (Inl e)
                | Inr (val, newOffset) \<Rightarrow>
                    parseLocation_loop buffer newOffset (result\<lparr>loc_address := val\<rparr>))
             else if fieldNumber = 4 then
               (case readLengthDelimited buffer tagOffset of
                  Inl e \<Rightarrow> Some (Inl e)
                | Inr (val, newOffset) \<Rightarrow>
                    (case parseLine val of
                       None \<Rightarrow> None
                     | Some (Inl e) \<Rightarrow> Some (Inl e)
                     | Some (Inr parsed) \<Rightarrow>
                         parseLocation_loop buffer newOffset
                           (result\<lparr>loc_line := loc_line result @ [parsed]\<rparr>)))
             else
               (case skipField buffer tagOffset wireType of
                  Inl e \<Rightarrow> Some (Inl e)
                | Inr newOffset \<Rightarrow> parseLocation_loop buffer newOffset result))
      else Some (Inr result))"

declare parseLocation_loop.simps [code]

definition parseLocation :: "buffer \<Rightarrow> (error + Location) option" where
  "parseLocation buffer =
     parseLocation_loop buffer 0 \<lparr>loc_id = 0, loc_mappingId = 0, loc_address = 0, loc_line = []\<rparr>"

partial_function (option) parseFunction_loop ::
  "buffer \<Rightarrow> int \<Rightarrow> Function \<Rightarrow> (error + Function) option" where
  "parseFunction_loop buffer offset result =
     (if offset < int (length buffer) then
        (case readTag buffer offset of
           Inl e \<Rightarrow> Some (Inl e)
         | Inr (fieldNumber, wireType, tagOffset) \<Rightarrow>
             (case readVarint buffer tagOffset of
                Inl e \<Rightarrow> Some (Inl e)
              | Inr (val, newOffset) \<Rightarrow>
                  parseFunction_loop buffer newOffset
                    (if fieldNumber = 1 then result\<lparr>fn_id := val\<rparr>
                     else if fieldNumber = 2 then result\<lparr>fn_name := val\<rparr>
                     else if fieldNumber = 3 then result\<lparr>fn_systemName := val\<rparr>
                     else if fieldNumber = 4 then result\<lparr>fn_filename := val\<rparr>
                     else if fieldNumber = 5 then result\<lparr>fn_startLine := val\<rparr>
                     else result)))
      else Some (Inr result))"

declare parseFunction_loop.simps [code]

definition parseFunction :: "buffer \<Rightarrow> (error + Function) option" where
  "parseFunction buffer =
     parseFunction_loop buffer 0
       \<lparr>fn_id = 0, fn_name = 0, fn_systemName = 0, fn_filename = 0, fn_startLine = 0\<rparr>"

subsection \<open>parseProtobuf\<close>

text \<open>
  The \<^verbatim>\<open>switch (fieldNumber)\<close> inside the \<^verbatim>\<open>try\<close>: the offset and the profile after the case,
  or the exception it throws. A case assigns \<^verbatim>\<open>offset\<close> and pushes to the profile only after
  everything that can throw, so an exception leaves both as they were.
\<close>

definition parseField ::
  "buffer \<Rightarrow> int \<Rightarrow> int \<Rightarrow> int \<Rightarrow> PprofProfile \<Rightarrow> (error + (int \<times> PprofProfile)) option" where
  "parseField buffer fieldNumber wireType offset profile =
     (if fieldNumber = 1 then
        (case readLengthDelimited buffer offset of
           Inl e \<Rightarrow> Some (Inl e)
         | Inr (val, newOffset) \<Rightarrow>
             (case parseSampleType val of
                None \<Rightarrow> None
              | Some (Inl e) \<Rightarrow> Some (Inl e)
              | Some (Inr x) \<Rightarrow>
                  Some (Inr (newOffset, profile\<lparr>p_sampleType := p_sampleType profile @ [x]\<rparr>))))
      else if fieldNumber = 2 then
        (case readLengthDelimited buffer offset of
           Inl e \<Rightarrow> Some (Inl e)
         | Inr (val, newOffset) \<Rightarrow>
             (case parseSample val of
                None \<Rightarrow> None
              | Some (Inl e) \<Rightarrow> Some (Inl e)
              | Some (Inr x) \<Rightarrow>
                  Some (Inr (newOffset, profile\<lparr>p_sample := p_sample profile @ [x]\<rparr>))))
      else if fieldNumber = 3 then
        (case readLengthDelimited buffer offset of
           Inl e \<Rightarrow> Some (Inl e)
         | Inr (val, newOffset) \<Rightarrow>
             (case parseMapping val of
                None \<Rightarrow> None
              | Some (Inl e) \<Rightarrow> Some (Inl e)
              | Some (Inr x) \<Rightarrow>
                  Some (Inr (newOffset, profile\<lparr>p_mapping := p_mapping profile @ [x]\<rparr>))))
      else if fieldNumber = 4 then
        (case readLengthDelimited buffer offset of
           Inl e \<Rightarrow> Some (Inl e)
         | Inr (val, newOffset) \<Rightarrow>
             (case parseLocation val of
                None \<Rightarrow> None
              | Some (Inl e) \<Rightarrow> Some (Inl e)
              | Some (Inr x) \<Rightarrow>
                  Some (Inr (newOffset, profile\<lparr>p_location := p_location profile @ [x]\<rparr>))))
      else if fieldNumber = 5 then
        (case readLengthDelimited buffer offset of
           Inl e \<Rightarrow> Some (Inl e)
         | Inr (val, newOffset) \<Rightarrow>
             (case parseFunction val of
                None \<Rightarrow> None
              | Some (Inl e) \<Rightarrow> Some (Inl e)
              | Some (Inr x) \<Rightarrow>
                  Some (Inr (newOffset, profile\<lparr>p_function := p_function profile @ [x]\<rparr>))))
      else if fieldNumber = 6 then
        (case readLengthDelimited buffer offset of
           Inl e \<Rightarrow> Some (Inl e)
         | Inr (val, newOffset) \<Rightarrow>
             Some (Inr (newOffset,
               profile\<lparr>p_stringTable := p_stringTable profile @ [toString_utf8 val]\<rparr>)))
      else if fieldNumber = 9 then
        (case readVarint buffer offset of
           Inl e \<Rightarrow> Some (Inl e)
         | Inr (val, newOffset) \<Rightarrow> Some (Inr (newOffset, profile\<lparr>p_timeNanos := val\<rparr>)))
      else if fieldNumber = 10 then
        (case readVarint buffer offset of
           Inl e \<Rightarrow> Some (Inl e)
         | Inr (val, newOffset) \<Rightarrow> Some (Inr (newOffset, profile\<lparr>p_durationNanos := val\<rparr>)))
      else if fieldNumber = 11 then
        (case readLengthDelimited buffer offset of
           Inl e \<Rightarrow> Some (Inl e)
         | Inr (val, newOffset) \<Rightarrow> Some (Inr (newOffset, profile)))
      else if fieldNumber = 12 then
        (case readVarint buffer offset of
           Inl e \<Rightarrow> Some (Inl e)
         | Inr (val, newOffset) \<Rightarrow> Some (Inr (newOffset, profile\<lparr>p_period := val\<rparr>)))
      else
        (case skipField buffer offset wireType of
           Inl e \<Rightarrow> Some (Inl e)
         | Inr newOffset \<Rightarrow> Some (Inr (newOffset, profile))))"

text \<open>
  The \<^verbatim>\<open>while (offset < buffer.length)\<close> loop. Both \<^verbatim>\<open>break\<close>s (a tag that cannot be read, a
  field that can be neither parsed nor skipped) leave the loop, and the function returns the
  profile as it stands.
\<close>

partial_function (option) parseProtobuf_loop ::
  "buffer \<Rightarrow> int \<Rightarrow> PprofProfile \<Rightarrow> PprofProfile option" where
  "parseProtobuf_loop buffer offset profile =
     (if offset < int (length buffer) then
        (case readTag buffer offset of
           Inl e \<Rightarrow> Some profile
         | Inr (fieldNumber, wireType, newOffset) \<Rightarrow>
             if wireType < 0 \<or> wireType > 5 then
               parseProtobuf_loop buffer (newOffset + 1) profile
             else
               (case parseField buffer fieldNumber wireType newOffset profile of
                  None \<Rightarrow> None
                | Some (Inr (offset', profile')) \<Rightarrow> parseProtobuf_loop buffer offset' profile'
                | Some (Inl e) \<Rightarrow>
                    (case skipField buffer newOffset wireType of
                       Inl skipError \<Rightarrow> Some profile
                     | Inr offset' \<Rightarrow> parseProtobuf_loop buffer offset' profile)))
      else Some profile)"

declare parseProtobuf_loop.simps [code]

definition emptyProfile :: PprofProfile where
  "emptyProfile =
     \<lparr>p_sampleType = [], p_sample = [], p_mapping = [], p_location = [], p_function = [],
      p_stringTable = [], p_timeNanos = 0, p_durationNanos = 0, p_period = 0\<rparr>"

definition parseProtobuf :: "buffer \<Rightarrow> PprofProfile option" where
  "parseProtobuf buffer = parseProtobuf_loop buffer 0 emptyProfile"

subsection \<open>The standard varint encoding\<close>

text \<open>
  The encoding a decoder is given: groups of 7 bits, least significant first, the top bit of
  every byte but the last set. For a value below \<open>2 ^ 32\<close> it is what \<^verbatim>\<open>encodeVarint\<close> of
  \<^verbatim>\<open>test-data/generateMockProfile.ts\<close> writes.
\<close>

function varint_encoding :: "nat \<Rightarrow> buffer" where
  "varint_encoding v =
     (if v < 128 then [of_nat v] else of_nat (v mod 128 + 128) # varint_encoding (v div 128))"
  by pat_completeness auto
termination
  by (relation "measure id") auto

declare varint_encoding.simps [simp del]

section \<open>models/CallTree.ts: the call tree builder\<close>

text \<open>\<^verbatim>\<open>`${line}`\<close>: the decimal digits of an integer number.\<close>

function string_of_nat :: "nat \<Rightarrow> string" where
  "string_of_nat n =
     (if n < 10 then [''0123456789'' ! n]
      else string_of_nat (n div 10) @ [''0123456789'' ! (n mod 10)])"
  by pat_completeness auto
termination
  by (relation "measure id") auto

declare string_of_nat.simps [simp del]

definition Number_toString :: "int \<Rightarrow> string" where
  "Number_toString i = (if i < 0 then CHR ''-'' # string_of_nat (nat (- i)) else string_of_nat (nat i))"

text \<open>
  A stack frame as \<^verbatim>\<open>addStack\<close> receives it, \<^verbatim>\<open>{ functionName, fileName, line }\<close>; the
  \<^verbatim>\<open>Location\<close> of the output model has the same three fields.
\<close>

record Frame =
  functionName :: string
  fileName :: string
  line :: int

text \<open>
  A node object. Node objects are created by \<^verbatim>\<open>getOrCreateNode\<close> only, which stores each one
  in \<^verbatim>\<open>nodeMap\<close> under its id and never replaces or removes it: a reference to a node
  (\<^verbatim>\<open>children\<close>, \<^verbatim>\<open>parent\<close>, \<^verbatim>\<open>roots\<close>) is the id, and the node map is the store of all
  node objects. The two percentage fields are floating-point quotients that
  \<^verbatim>\<open>calculatePercentages\<close> sets at the very end; they are left out. The times and counters
  are integers; the doubles that hold them in the program agree with them up to \<open>2 ^ 53\<close> in
  absolute value.
\<close>

record CallTreeNode =
  n_functionName :: string
  n_fileName :: string
  n_line :: int
  n_selfTime :: int
  n_totalTime :: int
  n_samples :: int
  n_invocations :: int
  n_children :: "string list"
  n_parent :: "string option"
  n_id :: string

record CallTreeBuilder =
  nodeMap :: "string \<rightharpoonup> CallTreeNode"
  roots :: "string list"

definition newCallTreeBuilder :: CallTreeBuilder where
  "newCallTreeBuilder = \<lparr>nodeMap = Map.empty, roots = []\<rparr>"

definition createNodeId :: "string \<Rightarrow> string \<Rightarrow> int \<Rightarrow> string" where
  "createNodeId fName file lineNo = file @ '':'' @ Number_toString lineNo @ '':'' @ fName"

text \<open>The builder after the call, and the node returned.\<close>

definition getOrCreateNode ::
  "CallTreeBuilder \<Rightarrow> string \<Rightarrow> string \<Rightarrow> int \<Rightarrow> CallTreeBuilder \<times> string" where
  "getOrCreateNode b fName file lineNo =
     (let id = createNodeId fName file lineNo
      in (if nodeMap b id = None then
            b\<lparr>nodeMap := (nodeMap b)(id \<mapsto>
              \<lparr>n_functionName = fName, n_fileName = file, n_line = lineNo, n_selfTime = 0,
               n_totalTime = 0, n_samples = 0, n_invocations = 0, n_children = [],
               n_parent = None, n_id = id\<rparr>)\<rparr>
          else b,
          id))"

text \<open>An assignment to fields of the node object that a reference points to.\<close>

definition modifyNode ::
  "CallTreeBuilder \<Rightarrow> string \<Rightarrow> (CallTreeNode \<Rightarrow> CallTreeNode) \<Rightarrow> CallTreeBuilder" where
  "modifyNode b node f =
     (case nodeMap b node of
        None \<Rightarrow> b
      | Some n \<Rightarrow> b\<lparr>nodeMap := (nodeMap b)(node \<mapsto> f n)\<rparr>)"

definition childrenOf :: "CallTreeBuilder \<Rightarrow> string \<Rightarrow> string list" where
  "childrenOf b node = (case nodeMap b node of None \<Rightarrow> [] | Some n \<Rightarrow> n_children n)"

definition frameId :: "Frame \<Rightarrow> string" where
  "frameId frame = createNodeId (functionName frame) (fileName frame) (line frame)"

text \<open>
  The body of the \<^verbatim>\<open>for\<close> loop of \<^verbatim>\<open>addStack\<close> for one frame of the reversed stack:
  the builder afterwards and the node, which becomes \<^verbatim>\<open>currentParent\<close>. \<open>isLeaf\<close> is
  \<^verbatim>\<open>i === reversedStack.length - 1\<close>. A child \<open>c\<close> of the parent has \<^verbatim>\<open>c.id === node.id\<close>
  exactly when it is the node.
\<close>

definition addFrame ::
  "CallTreeBuilder \<Rightarrow> string option \<Rightarrow> Frame \<Rightarrow> bool \<Rightarrow> int \<Rightarrow> CallTreeBuilder \<times> string" where
  "addFrame b currentParent frame isLeaf val =
     (let (b1, node) = getOrCreateNode b (functionName frame) (fileName frame) (line frame);
          b2 = modifyNode b1 node
                 (\<lambda>n. n\<lparr>n_totalTime := n_totalTime n + val, n_samples := n_samples n + 1\<rparr>);
          b3 = (if isLeaf then modifyNode b2 node (\<lambda>n. n\<lparr>n_selfTime := n_selfTime n + val\<rparr>)
                else b2);
          b4 = (case currentParent of
                  Some parent \<Rightarrow>
                    modifyNode
                      (if node \<notin> set (childrenOf b3 parent) then
                         modifyNode
                           (modifyNode b3 parent (\<lambda>p. p\<lparr>n_children := n_children p @ [node]\<rparr>))
                           node (\<lambda>n. n\<lparr>n_parent := Some parent\<rparr>)
                       else b3)
                      node (\<lambda>n. n\<lparr>n_invocations := n_invocations n + 1\<rparr>)
                | None \<Rightarrow>
                    if node \<notin> set (roots b3) then b3\<lparr>roots := roots b3 @ [node]\<rparr> else b3)
      in (b4, node))"

text \<open>The two halves of the loop body after the node lookup, named for the proofs: the
  time and sample counters, then the link to the parent or to the roots.\<close>

definition stage3 :: "CallTreeBuilder \<Rightarrow> string \<Rightarrow> bool \<Rightarrow> int \<Rightarrow> CallTreeBuilder" where
  "stage3 b1 node isLeaf val =
     (let b2 = modifyNode b1 node
                 (\<lambda>n. n\<lparr>n_totalTime := n_totalTime n + val, n_samples := n_samples n + 1\<rparr>)
      in if isLeaf then modifyNode b2 node (\<lambda>n. n\<lparr>n_selfTime := n_selfTime n + val\<rparr>) else b2)"

definition stage4 :: "CallTreeBuilder \<Rightarrow> string option \<Rightarrow> string \<Rightarrow> CallTreeBuilder" where
  "stage4 b3 currentParent node =
     (case currentParent of
        Some parent \<Rightarrow>
          modifyNode
            (if node \<notin> set (childrenOf b3 parent) then
               modifyNode
                 (modifyNode b3 parent (\<lambda>p. p\<lparr>n_children := n_children p @ [node]\<rparr>))
                 node (\<lambda>n. n\<lparr>n_parent := Some parent\<rparr>)
             else b3)
            node (\<lambda>n. n\<lparr>n_invocations := n_invocations n + 1\<rparr>)
      | None \<Rightarrow>
          if node \<notin> set (roots b3) then b3\<lparr>roots := roots b3 @ [node]\<rparr> else b3)"

fun addStack_loop ::
  "CallTreeBuilder \<Rightarrow> string option \<Rightarrow> Frame list \<Rightarrow> int \<Rightarrow> CallTreeBuilder" where
  "addStack_loop b currentParent [] val = b"
| "addStack_loop b currentParent (frame # rest) val =
     (let (b', node) = addFrame b currentParent frame (rest = []) val
      in addStack_loop b' (Some node) rest val)"

definition addStack :: "CallTreeBuilder \<Rightarrow> Frame list \<Rightarrow> int \<Rightarrow> int \<Rightarrow> CallTreeBuilder" where
  "addStack b stack val totalDuration =
     (if stack = [] then b else addStack_loop b None (rev stack) val)"

text \<open>\<^verbatim>\<open>sortChildren\<close> and \<^verbatim>\<open>getRoots\<close>: a stable sort, descending by total time.\<close>

definition totalTimeOf :: "CallTreeBuilder \<Rightarrow> string \<Rightarrow> int" where
  "totalTimeOf b node = (case nodeMap b node of None \<Rightarrow> 0 | Some n \<Rightarrow> n_totalTime n)"

definition sortChildren :: "CallTreeBuilder \<Rightarrow> CallTreeBuilder" where
  "sortChildren b =
     b\<lparr>nodeMap := (\<lambda>id. map_option
        (\<lambda>n. n\<lparr>n_children := sort_key (\<lambda>c. - totalTimeOf b c) (n_children n)\<rparr>) (nodeMap b id))\<rparr>"

definition getRoots :: "CallTreeBuilder \<Rightarrow> string list" where
  "getRoots b = sort_key (\<lambda>r. - totalTimeOf b r) (roots b)"

text \<open>A sequence of \<^verbatim>\<open>addStack\<close> calls \<open>(stack, value, totalDuration)\<close> on a new builder.\<close>

definition addStacks :: "(Frame list \<times> int \<times> int) list \<Rightarrow> CallTreeBuilder" where
  "addStacks calls = fold (\<lambda>(stack, val, total) b. addStack b stack val total) calls newCallTreeBuilder"

section \<open>models/ProfileData.ts: the output model\<close>

text \<open>
  The interfaces \<^verbatim>\<open>Location\<close>, \<^verbatim>\<open>LocationMetrics\<close>, \<^verbatim>\<open>FileMetrics\<close>, \<^verbatim>\<open>FunctionMetrics\<close>,
  \<^verbatim>\<open>TimeRange\<close> and \<^verbatim>\<open>ProfileData\<close>. A \<^verbatim>\<open>Location\<close> has the three fields of a \<open>Frame\<close>, which
  stands for it. A \<^verbatim>\<open>Map\<close> is an association list in insertion order, an optional field an
  \<open>option\<close>, a \<^verbatim>\<open>Date\<close> its time value, a reference to a call-tree node its id. Times and
  percentages are \<^typ>\<open>real\<close>, line numbers and counts \<^typ>\<open>int\<close>.
\<close>

text \<open>
  The numbers of a \<^verbatim>\<open>LocationMetrics\<close> are integers as long as the sample loop of the parser
  runs: the zeros of its object literal, and sums of sample values in \<open>samples\<close> and
  \<open>totalTime\<close>. The pass that follows the loop overwrites them with floating-point values.
\<close>

record LocationMetrics =
  lm_location :: Frame
  lm_selfTime :: int
  lm_totalTime :: int
  lm_selfPercent :: int
  lm_totalPercent :: int
  lm_samples :: int

record FunctionMetrics =
  fu_name :: string
  fu_fileName :: string
  fu_startLine :: int
  fu_endLine :: "int option"
  fu_selfTime :: real
  fu_totalTime :: real
  fu_selfPercent :: real
  fu_totalPercent :: real
  fu_samples :: int

record FileMetrics =
  fm_fileName :: string
  fm_totalTime :: real
  fm_totalPercent :: real
  fm_lineMetrics :: "(int \<times> LocationMetrics) list"
  fm_topFunctions :: "FunctionMetrics list"

record TimeRange =
  tr_start :: int
  tr_end :: int
  tr_label :: "string option"

record ProfileData =
  pd_totalSamples :: int
  pd_durationNs :: real
  pd_sampleRate :: int
  pd_sampleType :: string
  pd_timeRange :: "TimeRange option"
  pd_fileMetrics :: "(string \<times> FileMetrics) list"
  pd_topFunctions :: "FunctionMetrics list"
  pd_callTree :: "string list option"

section \<open>parsers/pprofParser.ts: from the decoded profile to the output model\<close>

subsection \<open>Strings\<close>

text \<open>
  \<^verbatim>\<open>String.prototype.toLowerCase\<close> maps every cased character of Unicode; it is a parameter
  \<open>toLowerCase\<close> of the functions that call it. On a string of ASCII characters it lowers the
  letters A to Z and nothing else, which is \<open>asciiLowerCase\<close>; that is also what the flag
  \<^verbatim>\<open>i\<close> of a regular expression does to the letters that \<^verbatim>\<open>\w\<close> matches.
\<close>

definition lowerChar :: "char \<Rightarrow> char" where
  "lowerChar c =
     (case map_of (zip ''ABCDEFGHIJKLMNOPQRSTUVWXYZ'' ''abcdefghijklmnopqrstuvwxyz'') c of
        None \<Rightarrow> c
      | Some l \<Rightarrow> l)"

definition asciiLowerCase :: "string \<Rightarrow> string" where
  "asciiLowerCase s = map lowerChar s"

text \<open>\<^verbatim>\<open>s.startsWith(sub)\<close> and \<^verbatim>\<open>s.includes(sub)\<close>.\<close>

definition startsWith :: "string \<Rightarrow> string \<Rightarrow> bool" where
  "startsWith s sub = (take (length sub) s = sub)"

fun str_includes :: "string \<Rightarrow> string \<Rightarrow> bool" where
  "str_includes [] sub = (sub = [])"
| "str_includes (c # cs) sub = (startsWith (c # cs) sub \<or> str_includes cs sub)"

text \<open>\<^verbatim>\<open>pprofData.stringTable[i]\<close>, and \<^verbatim>\<open>x || d\<close> for a string that may be undefined.\<close>

definition stringAt :: "string list \<Rightarrow> int \<Rightarrow> string option" where
  "stringAt table i = (if 0 \<le> i \<and> i < int (length table) then Some (table ! nat i) else None)"

definition orDefault :: "string option \<Rightarrow> string \<Rightarrow> string" where
  "orDefault s d = (case s of None \<Rightarrow> d | Some x \<Rightarrow> if x = [] then d else x)"

subsection \<open>The result of the aggregation\<close>

text \<open>
  What \<^verbatim>\<open>PprofParser.parseProtobuf\<close> computes on integers, of the \<^verbatim>\<open>ProfileData\<close> it returns:
  the sample count, the duration, the sample rate and type, the call tree (the sorted roots,
  and the node objects they lead to), and of the file metrics the keys: for every file the
  lines that have a \<^verbatim>\<open>LocationMetrics\<close>, each with the location of that object. The times
  and percentages of the file metrics and the list of top functions are floating-point
  values and are left out.
\<close>

record Aggregate =
  ag_totalSamples :: int
  ag_durationNs :: int
  ag_sampleRate :: int
  ag_sampleType :: string
  ag_fileMetrics :: "(string \<times> (int \<times> Frame) list) list"
  ag_callTree :: "string list"
  ag_nodes :: "string \<rightharpoonup> CallTreeNode"

subsection \<open>Lookup maps and the sample type\<close>

text \<open>The keys are \<^verbatim>\<open>Number(func.id)\<close> and \<^verbatim>\<open>Number(loc.id)\<close>; a later entry replaces an earlier
  one of the same key.\<close>

definition functionMap :: "Function list \<Rightarrow> int \<rightharpoonup> Function" where
  "functionMap fs = fold (\<lambda>func m. m(roundToDouble (fn_id func) \<mapsto> func)) fs Map.empty"

definition locationMap :: "Location list \<Rightarrow> int \<rightharpoonup> Location" where
  "locationMap ls = fold (\<lambda>loc m. m(roundToDouble (loc_id loc) \<mapsto> loc)) ls Map.empty"

definition sampleTypeName :: "PprofProfile \<Rightarrow> string" where
  "sampleTypeName pprofData =
     (case p_sampleType pprofData of
        [] \<Rightarrow> ''samples''
      | st # _ \<Rightarrow>
          orDefault (stringAt (p_stringTable pprofData) (roundToDouble (st_type st))) ''samples'')"

definition sampleUnit :: "PprofProfile \<Rightarrow> string" where
  "sampleUnit pprofData =
     (case p_sampleType pprofData of
        [] \<Rightarrow> ''count''
      | st # _ \<Rightarrow>
          orDefault (stringAt (p_stringTable pprofData) (roundToDouble (st_unit st))) ''count'')"

text \<open>\<^verbatim>\<open>sample.value[0] || 0n\<close>, and \<^verbatim>\<open>Number\<close> of it.\<close>

definition firstValue :: "Sample \<Rightarrow> int" where
  "firstValue sample = (case s_value sample of [] \<Rightarrow> 0 | v # _ \<Rightarrow> v)"

definition sampleValueOf :: "Sample \<Rightarrow> int" where
  "sampleValueOf sample = roundToDouble (firstValue sample)"

definition fileNameOf :: "PprofProfile \<Rightarrow> Function \<Rightarrow> string" where
  "fileNameOf pprofData func =
     orDefault (stringAt (p_stringTable pprofData) (roundToDouble (fn_filename func))) ''unknown''"

definition functionNameOf :: "PprofProfile \<Rightarrow> Function \<Rightarrow> string" where
  "functionNameOf pprofData func =
     orDefault (stringAt (p_stringTable pprofData) (roundToDouble (fn_name func))) ''unknown''"

subsection \<open>The loop over the samples\<close>

text \<open>\<^verbatim>\<open>`${fileName}:${sampleLine}`\<close>\<close>

definition metricsKey :: "string \<Rightarrow> int \<Rightarrow> string" where
  "metricsKey file sampleLine = file @ '':'' @ Number_toString sampleLine"

text \<open>
  The frame pushed to the stack for the call tree, with the start line of the function, and
  the location of the line metrics, with the line of the sample.
\<close>

definition stackFrame :: "PprofProfile \<Rightarrow> Function \<Rightarrow> Frame" where
  "stackFrame pprofData func =
     \<lparr>functionName = functionNameOf pprofData func, fileName = fileNameOf pprofData func,
      line = roundToDouble (fn_startLine func)\<rparr>"

definition sampleLocation :: "PprofProfile \<Rightarrow> Function \<Rightarrow> Line \<Rightarrow> Frame" where
  "sampleLocation pprofData func l =
     \<lparr>functionName = functionNameOf pprofData func, fileName = fileNameOf pprofData func,
      line = roundToDouble (ln_line l)\<rparr>"

text \<open>The loop over the \<^verbatim>\<open>line\<close> entries of one location: the stack and the metrics map.\<close>

fun processLines ::
  "PprofProfile \<Rightarrow> int \<Rightarrow> Line list \<Rightarrow> Frame list \<Rightarrow> (string \<times> LocationMetrics) list
   \<Rightarrow> Frame list \<times> (string \<times> LocationMetrics) list" where
  "processLines pprofData sampleValue [] stack metricsMap = (stack, metricsMap)"
| "processLines pprofData sampleValue (l # ls) stack metricsMap =
     (case functionMap (p_function pprofData) (roundToDouble (ln_functionId l)) of
        None \<Rightarrow> processLines pprofData sampleValue ls stack metricsMap
      | Some func \<Rightarrow>
          processLines pprofData sampleValue ls
            (stack @ [stackFrame pprofData func])
            (AList.map_entry
               (metricsKey (fileNameOf pprofData func) (roundToDouble (ln_line l)))
               (\<lambda>metrics. metrics\<lparr>
                  lm_samples := roundToDouble (lm_samples metrics + sampleValue),
                  lm_totalTime := roundToDouble (lm_totalTime metrics + sampleValue)\<rparr>)
               (if map_of metricsMap
                     (metricsKey (fileNameOf pprofData func) (roundToDouble (ln_line l))) = None
                then metricsMap @
                  [(metricsKey (fileNameOf pprofData func) (roundToDouble (ln_line l)),
                    \<lparr>lm_location = sampleLocation pprofData func l,
                     lm_selfTime = 0, lm_totalTime = 0, lm_selfPercent = 0,
                     lm_totalPercent = 0, lm_samples = 0\<rparr>)]
                else metricsMap)))"

text \<open>The loop over the location ids of one sample, with the set of processed locations.\<close>

fun processLocations ::
  "PprofProfile \<Rightarrow> int \<Rightarrow> int list \<Rightarrow> int set \<Rightarrow> Frame list \<Rightarrow> (string \<times> LocationMetrics) list
   \<Rightarrow> Frame list \<times> (string \<times> LocationMetrics) list" where
  "processLocations pprofData sampleValue [] processed stack metricsMap = (stack, metricsMap)"
| "processLocations pprofData sampleValue (locationId # ids) processed stack metricsMap =
     (if roundToDouble locationId \<in> processed then
        processLocations pprofData sampleValue ids processed stack metricsMap
      else
        (case locationMap (p_location pprofData) (roundToDouble locationId) of
           None \<Rightarrow>
             processLocations pprofData sampleValue ids
               (insert (roundToDouble locationId) processed) stack metricsMap
         | Some location \<Rightarrow>
             if loc_line location = [] then
               processLocations pprofData sampleValue ids
                 (insert (roundToDouble locationId) processed) stack metricsMap
             else
               processLocations pprofData sampleValue ids
                 (insert (roundToDouble locationId) processed)
                 (fst (processLines pprofData sampleValue (loc_line location) stack metricsMap))
                 (snd (processLines pprofData sampleValue (loc_line location) stack metricsMap))))"

text \<open>The loop over the samples: \<open>totalSamples\<close>, the metrics map and the tree builder.\<close>

fun processSamples ::
  "PprofProfile \<Rightarrow> Sample list \<Rightarrow> int \<Rightarrow> (string \<times> LocationMetrics) list \<Rightarrow> CallTreeBuilder
   \<Rightarrow> int \<times> (string \<times> LocationMetrics) list \<times> CallTreeBuilder" where
  "processSamples pprofData [] totalSamples metricsMap builder = (totalSamples, metricsMap, builder)"
| "processSamples pprofData (sample # samples) totalSamples metricsMap builder =
     processSamples pprofData samples (roundToDouble (totalSamples + sampleValueOf sample))
       (snd (processLocations pprofData (sampleValueOf sample) (s_locationId sample) {} []
               metricsMap))
       (addStack builder
          (fst (processLocations pprofData (sampleValueOf sample) (s_locationId sample) {} []
                  metricsMap))
          (sampleValueOf sample) (roundToDouble (totalSamples + sampleValueOf sample)))"

subsection \<open>Duration, grouping by file, the result\<close>

text \<open>
  \<^verbatim>\<open>durationNs\<close>: \<^verbatim>\<open>totalSamples\<close>, \<^verbatim>\<open>Number(pprofData.durationNanos)\<close> or
  \<^verbatim>\<open>totalSamples * (Number(pprofData.period) || 10000000)\<close>.
\<close>

definition durationOf :: "(string \<Rightarrow> string) \<Rightarrow> PprofProfile \<Rightarrow> int \<Rightarrow> int" where
  "durationOf toLowerCase pprofData totalSamples =
     (if str_includes (toLowerCase (sampleUnit pprofData)) ''nanosecond'' then totalSamples
      else if p_durationNanos pprofData > 0 then roundToDouble (p_durationNanos pprofData)
      else roundToDouble
             (totalSamples * (if roundToDouble (p_period pprofData) = 0 then 10000000
                              else roundToDouble (p_period pprofData))))"

definition actualTotalSamplesOf :: "(string \<Rightarrow> string) \<Rightarrow> PprofProfile \<Rightarrow> int \<Rightarrow> int" where
  "actualTotalSamplesOf toLowerCase pprofData totalSamples =
     (if str_includes (toLowerCase (sampleUnit pprofData)) ''nanosecond''
      then int (length (p_sample pprofData)) else totalSamples)"

text \<open>
  The loop that groups the metrics by file: \<^verbatim>\<open>fileMetrics.lineMetrics.set(metrics.location.line,
  metrics)\<close> in the \<^verbatim>\<open>FileMetrics\<close> of \<^verbatim>\<open>metrics.location.fileName\<close>, which is made when the
  file has none yet. The pass before it has replaced the numbers of \<open>metrics\<close> by
  floating-point values and left its location alone; the location is what is kept here.
\<close>

fun groupByFile ::
  "(string \<times> LocationMetrics) list \<Rightarrow> (string \<times> (int \<times> Frame) list) list
   \<Rightarrow> (string \<times> (int \<times> Frame) list) list" where
  "groupByFile [] fileMetricsMap = fileMetricsMap"
| "groupByFile ((key, metrics) # rest) fileMetricsMap =
     groupByFile rest
       (AList.map_entry (fileName (lm_location metrics))
          (\<lambda>lineMetrics. AList.update (line (lm_location metrics)) (lm_location metrics) lineMetrics)
          (if map_of fileMetricsMap (fileName (lm_location metrics)) = None
           then fileMetricsMap @ [(fileName (lm_location metrics), [])]
           else fileMetricsMap))"

definition PprofParser_parseProtobuf :: "(string \<Rightarrow> string) \<Rightarrow> PprofProfile \<Rightarrow> Aggregate" where
  "PprofParser_parseProtobuf toLowerCase pprofData =
     (case processSamples pprofData (p_sample pprofData) 0 [] newCallTreeBuilder of
        (totalSamples, metricsMap, builder) \<Rightarrow>
          \<lparr>ag_totalSamples = actualTotalSamplesOf toLowerCase pprofData totalSamples,
           ag_durationNs = durationOf toLowerCase pprofData totalSamples,
           ag_sampleRate = (if roundToDouble (p_period pprofData) = 0 then 100
                            else roundToDouble (p_period pprofData)),
           ag_sampleType = (if sampleTypeName pprofData = [] then ''cpu'' else sampleTypeName pprofData),
           ag_fileMetrics = groupByFile metricsMap [],
           ag_callTree = getRoots (sortChildren builder),
           ag_nodes = nodeMap (sortChildren builder)\<rparr>)"

subsection \<open>The claims' own words\<close>



text \<open>
  The stack frames of a profile: for every sample, every location id of its stack that
  resolves to a location, every line of that location whose function id resolves, the
  function and the line.
\<close>

definition framesOfLines :: "PprofProfile \<Rightarrow> Line list \<Rightarrow> (Function \<times> Line) list" where
  "framesOfLines pprofData ls =
     concat (map (\<lambda>l. case functionMap (p_function pprofData) (roundToDouble (ln_functionId l)) of
                         None \<Rightarrow> [] | Some func \<Rightarrow> [(func, l)]) ls)"

definition framesOfLocation :: "PprofProfile \<Rightarrow> int \<Rightarrow> (Function \<times> Line) list" where
  "framesOfLocation pprofData locationId =
     (case locationMap (p_location pprofData) (roundToDouble locationId) of
        None \<Rightarrow> []
      | Some location \<Rightarrow> framesOfLines pprofData (loc_line location))"

definition framesOfProfile :: "PprofProfile \<Rightarrow> (Function \<times> Line) list" where
  "framesOfProfile pprofData =
     concat (map (\<lambda>sample. concat (map (framesOfLocation pprofData) (s_locationId sample)))
                 (p_sample pprofData))"

section \<open>parsers/pprofParser.ts: parseBuffer and the text format\<close>

subsection \<open>The regular expressions of the header\<close>

text \<open>\<^verbatim>\<open>text.split('\n')\<close>: the pieces between the separators, at least one.\<close>

fun splitOn :: "char \<Rightarrow> string \<Rightarrow> string list" where
  "splitOn sep [] = [[]]"
| "splitOn sep (c # cs) =
     (if c = sep then [] # splitOn sep cs
      else (case splitOn sep cs of [] \<Rightarrow> [[c]] | w # ws \<Rightarrow> (c # w) # ws))"

text \<open>
  \<^verbatim>\<open>\s\<close> matches the ASCII white space and the Unicode space characters U+00A0, U+1680,
  U+2000 to U+200A, U+2028, U+2029, U+202F, U+205F, U+3000 and U+FEFF, here in UTF-8. The
  result is the text after one such character.
\<close>

definition stripSpace :: "string \<Rightarrow> string option" where
  "stripSpace s =
     (if s \<noteq> [] \<and> hd s \<in> {CHR 0x09, CHR 0x0A, CHR 0x0B, CHR 0x0C, CHR 0x0D, CHR 0x20}
        then Some (tl s)
      else if take 2 s = [CHR 0xC2, CHR 0xA0] then Some (drop 2 s)
      else if take 3 s = [CHR 0xE1, CHR 0x9A, CHR 0x80] then Some (drop 3 s)
      else if take 2 s = [CHR 0xE2, CHR 0x80] \<and> length s \<ge> 3
              \<and> s ! 2 \<in> {CHR 0x80, CHR 0x81, CHR 0x82, CHR 0x83, CHR 0x84, CHR 0x85, CHR 0x86,
                         CHR 0x87, CHR 0x88, CHR 0x89, CHR 0x8A, CHR 0xA8, CHR 0xA9, CHR 0xAF}
        then Some (drop 3 s)
      else if take 3 s = [CHR 0xE2, CHR 0x81, CHR 0x9F] then Some (drop 3 s)
      else if take 3 s = [CHR 0xE3, CHR 0x80, CHR 0x80] then Some (drop 3 s)
      else if take 3 s = [CHR 0xEF, CHR 0xBB, CHR 0xBF] then Some (drop 3 s)
      else None)"

text \<open>\<^verbatim>\<open>\s*\<close>, greedy: the text after all leading white space.\<close>

function dropSpaces :: "string \<Rightarrow> string" where
  "dropSpaces s = (case stripSpace s of None \<Rightarrow> s | Some r \<Rightarrow> dropSpaces r)"
  by pat_completeness auto
termination
proof (relation "measure length")
  show "wf (measure length)" by simp
next
  fix s r :: string
  assume a: "stripSpace s = Some r"
  have "s \<noteq> []"
    using a by (auto simp: stripSpace_def split: if_splits)
  moreover have "\<exists>k>0. r = drop k s"
  proof -
    have "r = drop 1 s \<or> r = drop 2 s \<or> r = drop 3 s"
      using a by (auto simp: stripSpace_def drop_Suc split: if_splits)
    then show ?thesis by (metis zero_less_numeral zero_less_one)
  qed
  ultimately show "(r, s) \<in> measure length" by auto
qed

declare dropSpaces.simps [simp del]

definition isDigit :: "char \<Rightarrow> bool" where
  "isDigit c = (c \<in> set ''0123456789'')"

definition digitValue :: "char \<Rightarrow> nat" where
  "digitValue c = length (takeWhile (\<lambda>d. d \<noteq> c) ''0123456789'')"

text \<open>The number that a string of decimal digits writes, and \<^verbatim>\<open>parseInt\<close> of such a string: the
  double nearest to it.\<close>

definition digitsValue :: "string \<Rightarrow> int" where
  "digitsValue digits = int (foldl (\<lambda>acc c. 10 * acc + digitValue c) 0 digits)"

definition parseInt :: "string \<Rightarrow> int" where
  "parseInt digits = roundToDouble (digitsValue digits)"

text \<open>
  \<^verbatim>\<open>parseFloat\<close> on a string of digits and dots: the longest prefix that is a decimal
  literal, \<open>None\<close> for \<^verbatim>\<open>NaN\<close>. The value is the exact decimal: the rounding of a fraction to
  a double, here and in the products with \<^verbatim>\<open>1e9\<close> and \<^verbatim>\<open>1e6\<close> below, is not modelled, and no
  theorem speaks of a duration that was read from the text.
\<close>

definition parseFloat :: "string \<Rightarrow> real option" where
  "parseFloat s =
     (let ip = takeWhile isDigit s;
          rest = dropWhile isDigit s;
          fp = (if rest \<noteq> [] \<and> hd rest = CHR ''.'' then takeWhile isDigit (tl rest) else [])
      in if ip = [] \<and> fp = [] then None
         else Some (real_of_int (digitsValue ip) + real_of_int (digitsValue fp) / 10 ^ length fp))"

text \<open>\<^verbatim>\<open>/Total:\s+(\d+)/\<close> at the start of the text: the digits captured.\<close>

definition matchTotalAt :: "string \<Rightarrow> string option" where
  "matchTotalAt s =
     (if startsWith s ''Total:'' \<and> stripSpace (drop 6 s) \<noteq> None
         \<and> takeWhile isDigit (dropSpaces (drop 6 s)) \<noteq> []
      then Some (takeWhile isDigit (dropSpaces (drop 6 s)))
      else None)"

text \<open>\<^verbatim>\<open>line.match(/Total:\s+(\d+)/)\<close>: the leftmost match.\<close>

fun matchTotal :: "string \<Rightarrow> string option" where
  "matchTotal [] = None"
| "matchTotal (c # cs) =
     (case matchTotalAt (c # cs) of Some m \<Rightarrow> Some m | None \<Rightarrow> matchTotal cs)"

text \<open>\<^verbatim>\<open>/Duration:\s+([\d.]+)(s|ms|ns)/\<close> at the start of the text: the number and the unit.\<close>

definition matchDurationAt :: "string \<Rightarrow> (string \<times> string) option" where
  "matchDurationAt s =
     (if startsWith s ''Duration:'' \<and> stripSpace (drop 9 s) \<noteq> None then
        (let t = dropSpaces (drop 9 s);
             num = takeWhile (\<lambda>c. isDigit c \<or> c = CHR ''.'') t;
             after = dropWhile (\<lambda>c. isDigit c \<or> c = CHR ''.'') t
         in if num = [] then None
            else if startsWith after ''s'' then Some (num, ''s'')
            else if startsWith after ''ms'' then Some (num, ''ms'')
            else if startsWith after ''ns'' then Some (num, ''ns'')
            else None)
      else None)"

fun matchDuration :: "string \<Rightarrow> (string \<times> string) option" where
  "matchDuration [] = None"
| "matchDuration (c # cs) =
     (case matchDurationAt (c # cs) of Some m \<Rightarrow> Some m | None \<Rightarrow> matchDuration cs)"

subsection \<open>parseTextFormat\<close>

text \<open>
  The loop over the lines: \<open>totalSamples\<close> and \<open>durationNs\<close> (\<open>None\<close> when it is \<^verbatim>\<open>NaN\<close>). A
  line that matches assigns; any other line leaves the variable as it is.
\<close>

fun headerLoop :: "string list \<Rightarrow> int \<Rightarrow> real option \<Rightarrow> int \<times> real option" where
  "headerLoop [] totalSamples durationNs = (totalSamples, durationNs)"
| "headerLoop (l # ls) totalSamples durationNs =
     headerLoop ls
       (if str_includes l ''Total:'' then
          (case matchTotal l of None \<Rightarrow> totalSamples | Some m \<Rightarrow> parseInt m)
        else totalSamples)
       (if str_includes l ''Duration:'' then
          (case matchDuration l of
             None \<Rightarrow> durationNs
           | Some (num, unit) \<Rightarrow>
               (if unit = ''s'' then map_option (\<lambda>v. v * 1000000000) (parseFloat num)
                else if unit = ''ms'' then map_option (\<lambda>v. v * 1000000) (parseFloat num)
                else parseFloat num))
        else durationNs)"

text \<open>\<^verbatim>\<open>totalSamples || 1000\<close> and \<^verbatim>\<open>durationNs || 10e9\<close>: 0 and \<^verbatim>\<open>NaN\<close> give the default.\<close>

definition parseTextFormat :: "string \<Rightarrow> ProfileData" where
  "parseTextFormat text =
     (case headerLoop (splitOn CHR 0x0A text) 0 (Some 0) of
        (totalSamples, durationNs) \<Rightarrow>
          \<lparr>pd_totalSamples = (if totalSamples = 0 then 1000 else totalSamples),
           pd_durationNs =
             (case durationNs of None \<Rightarrow> 10000000000
              | Some d \<Rightarrow> if d = 0 then 10000000000 else d),
           pd_sampleRate = 100,
           pd_sampleType = ''cpu'',
           pd_timeRange = None,
           pd_fileMetrics = [],
           pd_topFunctions = [],
           pd_callTree = None\<rparr>)"

subsection \<open>parseBuffer\<close>

text \<open>
  \<^verbatim>\<open>buffer.toString('utf-8')\<close> throws when the text would be longer than the longest string of
  the engine, \<^verbatim>\<open>buffer.constants.MAX_STRING_LENGTH\<close>: \<^verbatim>\<open>0x1fffffe8\<close> on a 64-bit platform
  (earlier releases had limits below \<open>2 ^ 30\<close>). The length of a string counts UTF-16 code
  units: one for every character of well-formed UTF-8, two for a character of four bytes.
\<close>

datatype node_error = ERR_STRING_TOO_LONG

definition utf16Length :: "buffer \<Rightarrow> nat" where
  "utf16Length buffer =
     length (filter (\<lambda>b. b AND 0xC0 \<noteq> 0x80) buffer) + length (filter (\<lambda>b. 0xF0 \<le> b) buffer)"

definition Buffer_toString :: "buffer \<Rightarrow> node_error + string" where
  "Buffer_toString buffer =
     (if 0x1fffffe8 < utf16Length buffer then Inl ERR_STRING_TOO_LONG
      else Inr (toString_utf8 buffer))"

text \<open>
  What \<^verbatim>\<open>parseBuffer\<close> rejects with: the rejection of \<^verbatim>\<open>this.parseProtobuf(buffer)\<close>, which it
  returns as it is, or \<^verbatim>\<open>Failed to parse pprof data. ... Error: ${error}\<close> for an error caught
  in the text branch.
\<close>

datatype ('e, 'x) parse_error = ProtobufError 'e | FailedToParse 'x

text \<open>
  \<^verbatim>\<open>this.parseProtobuf(buffer)\<close> decompresses with zlib and decodes with the protobuf library
  before it aggregates; both are outside the repository, so the method is a parameter here.
  So is the decoder \<^verbatim>\<open>buffer.toString('utf-8')\<close>, with what it throws: the theorems on
  \<^verbatim>\<open>parseBuffer\<close> hold for every decoder, and \<open>Buffer_toString\<close> is used on buffers of ASCII
  characters. \<^verbatim>\<open>parseTextFormat\<close> throws nothing, so the \<^verbatim>\<open>catch\<close> of the text branch catches
  what the decoder throws.
\<close>

definition parseBuffer ::
  "(buffer \<Rightarrow> 'x + string) \<Rightarrow> (buffer \<Rightarrow> 'e + ProfileData) \<Rightarrow> buffer
   \<Rightarrow> ('e, 'x) parse_error + ProfileData" where
  "parseBuffer toString parseProtobufMethod buffer =
     (if buffer_at buffer 0 = Some 0x1f \<and> buffer_at buffer 1 = Some 0x8b then
        map_sum ProtobufError id (parseProtobufMethod buffer)
      else if buffer_at buffer 0 = Some 0x0a \<or> buffer_at buffer 0 = Some 0x12 then
        map_sum ProtobufError id (parseProtobufMethod buffer)
      else (case toString buffer of
              Inl thrown \<Rightarrow> Inl (FailedToParse thrown)
            | Inr text \<Rightarrow> Inr (parseTextFormat text)))"

section \<open>utils/pathMapper.ts: findFileInWorkspace\<close>

text \<open>
  Paths are POSIX paths (\<^verbatim>\<open>path.sep\<close> is \<open>/\<close>); a candidate is the \<^verbatim>\<open>fsPath\<close> of its URI.
  \<open>toLowerCase\<close> is \<^verbatim>\<open>String.prototype.toLowerCase\<close>, a parameter.
  \<^verbatim>\<open>p.split('/').filter(p => p)\<close>: the segments that are not empty.
\<close>

definition pathSegments :: "string \<Rightarrow> string list" where
  "pathSegments p = filter (\<lambda>s. s \<noteq> []) (splitOn CHR ''/'' p)"

subsection \<open>The hints\<close>

text \<open>
  The loop \<^verbatim>\<open>for (let i = 0; i < pathParts.length - 1; i++)\<close>: every segment but the last one;
  \<^verbatim>\<open>i === pathParts.length - 2\<close> holds when one segment follows.
\<close>

fun pathHints :: "(string \<Rightarrow> string) \<Rightarrow> string list \<Rightarrow> string list" where
  "pathHints toLowerCase [] = []"
| "pathHints toLowerCase [fileSegment] = []"
| "pathHints toLowerCase (part # rest) =
     (if toLowerCase part \<in> set [''usr'', ''src'', ''app'', ''go'', ''code'', ''workspace''] then
        pathHints toLowerCase rest
      else if str_includes part ''service'' \<or> length rest = 1 then
        toLowerCase part # pathHints toLowerCase rest
      else pathHints toLowerCase rest)"

definition isWordChar :: "char \<Rightarrow> bool" where
  "isWordChar c =
     (c \<in> set ''abcdefghijklmnopqrstuvwxyzABCDEFGHIJKLMNOPQRSTUVWXYZ0123456789_'')"

text \<open>\<^verbatim>\<open>/\(\*?(\w+)\)\./\<close> at the start of the text, then the leftmost match: the type
  name captured.\<close>

definition receiverAt :: "string \<Rightarrow> string option" where
  "receiverAt s =
     (if startsWith s ''('' then
        (let r = (if startsWith (drop 1 s) ''*'' then drop 2 s else drop 1 s)
         in if takeWhile isWordChar r \<noteq> [] \<and> startsWith (dropWhile isWordChar r) '').''
            then Some (takeWhile isWordChar r) else None)
      else None)"

fun receiverMatch :: "string \<Rightarrow> string option" where
  "receiverMatch [] = None"
| "receiverMatch (c # cs) =
     (case receiverAt (c # cs) of Some m \<Rightarrow> Some m | None \<Rightarrow> receiverMatch cs)"

text \<open>\<^verbatim>\<open>/\(\*?(\w+Service)\)\./i\<close>: the word must end in \<open>service\<close>, in any case, after at
  least one other character.\<close>

definition serviceReceiverAt :: "string \<Rightarrow> string option" where
  "serviceReceiverAt s =
     (case receiverAt s of
        None \<Rightarrow> None
      | Some w \<Rightarrow>
          if length w \<ge> 8 \<and> asciiLowerCase (drop (length w - 7) w) = ''service'' then Some w
          else None)"

fun serviceReceiverMatch :: "string \<Rightarrow> string option" where
  "serviceReceiverMatch [] = None"
| "serviceReceiverMatch (c # cs) =
     (case serviceReceiverAt (c # cs) of Some m \<Rightarrow> Some m | None \<Rightarrow> serviceReceiverMatch cs)"

text \<open>The hint from the function name, added to the hints found so far.\<close>

definition functionHints ::
  "(string \<Rightarrow> string) \<Rightarrow> string list \<Rightarrow> string option \<Rightarrow> string list" where
  "functionHints toLowerCase serviceHints fName =
     (case fName of
        None \<Rightarrow> serviceHints
      | Some f \<Rightarrow>
          if f = [] then serviceHints
          else (case receiverMatch f of
                  Some m \<Rightarrow>
                    if toLowerCase m \<notin> set serviceHints then serviceHints @ [toLowerCase m]
                    else serviceHints
                | None \<Rightarrow>
                    if length (splitOn CHR ''/'' f) > 1 then
                      (let hint = toLowerCase (hd (splitOn CHR ''.'' (last (splitOn CHR ''/'' f))))
                       in if hint \<noteq> ''main'' \<and> hint \<notin> set serviceHints
                          then serviceHints @ [hint] else serviceHints)
                    else serviceHints))"

text \<open>The hints from the other functions of the same file, when there is no hint yet.\<close>

fun siblingHints ::
  "(string \<Rightarrow> string) \<Rightarrow> string \<Rightarrow> FunctionMetrics list \<Rightarrow> string list \<Rightarrow> string list" where
  "siblingHints toLowerCase profilePath [] serviceHints = serviceHints"
| "siblingHints toLowerCase profilePath (func # funcs) serviceHints =
     siblingHints toLowerCase profilePath funcs
       (if fu_fileName func = profilePath then
          (case serviceReceiverMatch (fu_name func) of
             Some m \<Rightarrow>
               if toLowerCase m \<notin> set serviceHints then serviceHints @ [toLowerCase m]
               else serviceHints
           | None \<Rightarrow> serviceHints)
        else serviceHints)"

definition serviceHintsOf ::
  "(string \<Rightarrow> string) \<Rightarrow> string \<Rightarrow> string option \<Rightarrow> ProfileData option \<Rightarrow> string list" where
  "serviceHintsOf toLowerCase profilePath fName profile =
     (let hints = functionHints toLowerCase (pathHints toLowerCase (pathSegments profilePath)) fName
      in case profile of
           Some p \<Rightarrow>
             if hints = [] then siblingHints toLowerCase profilePath (pd_topFunctions p) []
             else hints
         | None \<Rightarrow> hints)"

subsection \<open>The score of a candidate\<close>

text \<open>The loop over the hints: \<open>maxHintScore\<close>.\<close>

fun hintScore_loop :: "string \<Rightarrow> string list \<Rightarrow> nat \<Rightarrow> nat" where
  "hintScore_loop filePathLower [] maxHintScore = maxHintScore"
| "hintScore_loop filePathLower (hint # hints) maxHintScore =
     hintScore_loop filePathLower hints
       (if str_includes filePathLower (''/'' @ hint @ ''/'') then
          (if 100 > maxHintScore then 100 else maxHintScore)
        else if str_includes filePathLower hint then
          (if 50 > maxHintScore then 50 else maxHintScore)
        else maxHintScore)"

text \<open>The loop from the ends of both segment lists, here on the reversed lists.\<close>

fun consecutiveMatches :: "string list \<Rightarrow> string list \<Rightarrow> nat" where
  "consecutiveMatches (p # ps) (f # fs) = (if p = f then Suc (consecutiveMatches ps fs) else 0)"
| "consecutiveMatches ps fs = 0"

fun segmentBonus :: "string list \<Rightarrow> string list \<Rightarrow> nat \<Rightarrow> nat" where
  "segmentBonus [] fileParts score = score"
| "segmentBonus (profilePart # rest) fileParts score =
     segmentBonus rest fileParts (if profilePart \<in> set fileParts then score + 5 else score)"

definition candidateScore ::
  "(string \<Rightarrow> string) \<Rightarrow> string list \<Rightarrow> string list \<Rightarrow> string \<Rightarrow> nat" where
  "candidateScore toLowerCase serviceHints profileParts filePath =
     segmentBonus profileParts (pathSegments filePath)
       ((if hintScore_loop (toLowerCase filePath) serviceHints 0 > 0
         then hintScore_loop (toLowerCase filePath) serviceHints 0 else 0)
        + consecutiveMatches (rev profileParts) (rev (pathSegments filePath)) * 10)"

text \<open>The loop over the candidates: \<open>bestMatch\<close> and \<open>bestScore\<close>.\<close>

fun selectBest ::
  "(string \<Rightarrow> string) \<Rightarrow> string list \<Rightarrow> string list \<Rightarrow> string list \<Rightarrow> string option \<Rightarrow> nat
   \<Rightarrow> string option" where
  "selectBest toLowerCase serviceHints profileParts [] bestMatch bestScore = bestMatch"
| "selectBest toLowerCase serviceHints profileParts (file # files) bestMatch bestScore =
     (if candidateScore toLowerCase serviceHints profileParts file > bestScore then
        selectBest toLowerCase serviceHints profileParts files (Some file)
          (candidateScore toLowerCase serviceHints profileParts file)
      else selectBest toLowerCase serviceHints profileParts files bestMatch bestScore)"

text \<open>
  The file system and the workspace are the editor's: whether \<^verbatim>\<open>stat\<close> finds the exact path,
  whether there are workspace folders, and the files that \<^verbatim>\<open>findFiles\<close> returns for the
  basename, in its order, are given.
\<close>

definition findFileInWorkspace ::
  "(string \<Rightarrow> string) \<Rightarrow> bool \<Rightarrow> bool \<Rightarrow> string list \<Rightarrow> string \<Rightarrow> string option
   \<Rightarrow> ProfileData option \<Rightarrow> string option" where
  "findFileInWorkspace toLowerCase exactExists workspaceFolders files profilePath fName profile =
     (if exactExists then Some profilePath
      else if \<not> workspaceFolders then None
      else if length files = 0 then None
      else if length files = 1 then Some (hd files)
      else selectBest toLowerCase (serviceHintsOf toLowerCase profilePath fName profile)
             (pathSegments profilePath) files None 0)"

subsection \<open>The score in the claim's own words\<close>

text \<open>
  The hint part of the score with the containment tests on the candidate path as it stands,
  the shared segments from the end, and the segments present anywhere.
\<close>

definition spec_hintScore :: "string list \<Rightarrow> string \<Rightarrow> nat" where
  "spec_hintScore hints filePath =
     (if \<exists>h \<in> set hints. str_includes filePath (''/'' @ h @ ''/'') then 100
      else if \<exists>h \<in> set hints. str_includes filePath h then 50
      else 0)"

definition spec_candidateScore :: "string list \<Rightarrow> string list \<Rightarrow> string \<Rightarrow> nat" where
  "spec_candidateScore hints profileParts filePath =
     spec_hintScore hints filePath
     + 10 * length (takeWhile (\<lambda>(p, f). p = f) (zip (rev profileParts) (rev (pathSegments filePath))))
     + 5 * length (filter (\<lambda>p. p \<in> set (pathSegments filePath)) profileParts)"

section \<open>Invariants of the loops\<close>

text \<open>
  Every node carries the name, the file and the line of a frame of \<open>S\<close> that has its id.
\<close>

definition ident_ok :: "Frame set \<Rightarrow> CallTreeBuilder \<Rightarrow> bool" where
  "ident_ok S b =
     (\<forall>k n. nodeMap b k = Some n \<longrightarrow>
        (\<exists>fr \<in> S. k = frameId fr \<and> n_functionName n = functionName fr
           \<and> n_fileName n = fileName fr \<and> n_line n = line fr))"

text \<open>
  Every entry of the metrics map was made for a frame of \<open>F\<close>, under the key of its file and
  sample line, and every frame of \<open>F\<close> has an entry.
\<close>

definition metrics_ok ::
  "PprofProfile \<Rightarrow> (Function \<times> Line) set \<Rightarrow> (string \<times> LocationMetrics) list \<Rightarrow> bool" where
  "metrics_ok pprofData F metricsMap =
     ((\<forall>(k, m) \<in> set metricsMap. \<exists>(func, l) \<in> F.
          k = metricsKey (fileNameOf pprofData func) (roundToDouble (ln_line l))
          \<and> lm_location m = sampleLocation pprofData func l)
      \<and> (\<forall>(func, l) \<in> F.
          metricsKey (fileNameOf pprofData func) (roundToDouble (ln_line l))
            \<in> fst ` set metricsMap))"

text \<open>
  Every location in the line metrics of a file was taken from \<open>M\<close> and stands under its file
  and its line, and every element of \<open>M\<close> has an entry at its file and line.
\<close>

definition files_ok :: "Frame set \<Rightarrow> (string \<times> (int \<times> Frame) list) list \<Rightarrow> bool" where
  "files_ok M fileMetricsMap =
     ((\<forall>f lineMetrics. map_of fileMetricsMap f = Some lineMetrics \<longrightarrow>
         (\<forall>lineNo loc. map_of lineMetrics lineNo = Some loc \<longrightarrow>
               loc \<in> M \<and> fileName loc = f \<and> line loc = lineNo))
      \<and> (\<forall>loc \<in> M. \<exists>lineMetrics. map_of fileMetricsMap (fileName loc) = Some lineMetrics
               \<and> map_of lineMetrics (line loc) \<noteq> None))"

text \<open>
  For the node index: how often a stack has a frame of the id \<open>k\<close>, and the ids of the frames
  that a frame of the id \<open>k\<close> calls directly in it. A stack lists the innermost call first, so
  read from its end every frame is followed by its callee.
\<close>

definition occurrences :: "string \<Rightarrow> Frame list \<Rightarrow> nat" where
  "occurrences k stack = length (filter (\<lambda>frame. frameId frame = k) stack)"


definition samplesOf :: "CallTreeBuilder \<Rightarrow> string \<Rightarrow> int" where
  "samplesOf b node = (case nodeMap b node of None \<Rightarrow> 0 | Some n \<Rightarrow> n_samples n)"


section \<open>Properties of the numbers\<close>








text \<open>A double holds every integer up to \<open>2 ^ 53\<close> in absolute value, and \<open>2 ^ 53 + 1\<close> is the first
  integer it does not hold.\<close>

lemma roundToDouble_safe: "\<bar>x\<bar> \<le> 2 ^ 53 \<Longrightarrow> roundToDouble x = x"
  by (simp add: roundToDouble_def)

lemma roundToDouble_numeral:
  "\<bar>numeral k :: int\<bar> \<le> 2 ^ 53 \<Longrightarrow> roundToDouble (numeral k) = numeral k"
  by (rule roundToDouble_safe)

lemma roundToDouble_0: "roundToDouble 0 = 0"
  by (simp add: roundToDouble_def)

lemma roundToDouble_1: "roundToDouble 1 = 1"
  by (simp add: roundToDouble_def)

lemmas roundToDouble_eval = roundToDouble_numeral roundToDouble_0 roundToDouble_1


section \<open>Properties of the wire reader\<close>

subsection \<open>Helper lemmas\<close>

lemma continuation_bit: "(ucast (b::byte) :: 32 word) AND 0x80 = 0 \<longleftrightarrow> \<not> bit b 7"
proof -
  have "(0x80 :: 32 word) = 2 ^ 7" by simp
  then have "(ucast b :: 32 word) AND 0x80 = 0 \<longleftrightarrow> \<not> bit (ucast b :: 32 word) 7"
    by (simp only: and_exp_eq_0_iff_not_bit)
  then show ?thesis by (simp add: bit_ucast_iff)
qed

text \<open>A buffer that ends inside a varint: the loop runs to the end of the buffer and
  leaves with fewer than 10 iterations, so nothing is thrown.\<close>

lemma readVarint_loop_truncated:
  assumes "0 \<le> offset" "offset \<le> int (length buffer)"
    "\<forall>b \<in> set (drop (nat offset) buffer). bit b 7"
    "int iterations + (int (length buffer) - offset) < 10"
  shows "\<exists>v it. readVarint_loop buffer offset val shift iterations = (v, int (length buffer), it)
           \<and> it < 10"
  using assms
proof (induction buffer offset val shift iterations rule: readVarint_loop.induct)
  case (1 buffer offset val shift iterations)
  show ?case
  proof (cases "offset < int (length buffer)")
    case True
    then have it: "iterations < 10" using "1.prems"(4) by linarith
    have idx: "nat offset < length buffer" using True "1.prems"(1) by linarith
    have at: "buffer_at buffer offset = Some (buffer ! nat offset)"
      using True "1.prems"(1) by (simp add: buffer_at_def)
    have "buffer ! nat offset \<in> set (drop (nat offset) buffer)"
      using idx by (metis Cons_nth_drop_Suc list.set_intros(1))
    then have "bit (buffer ! nat offset) 7" using "1.prems"(3) by blast
    then have cont: "ToInt32 (buffer_at buffer offset) AND 0x80 \<noteq> 0"
      by (simp add: at ToInt32_def continuation_bit)
    have nat1: "nat (offset + 1) = Suc (nat offset)" using "1.prems"(1) by linarith
    have "set (drop (nat (offset + 1)) buffer) \<subseteq> set (drop (nat offset) buffer)"
      unfolding nat1 by (rule set_drop_subset_set_drop) simp
    then have sub: "\<forall>b \<in> set (drop (nat (offset + 1)) buffer). bit b 7"
      using "1.prems"(3) by blast
    have c: "offset < int (length buffer) \<and> iterations < 10" using True it by simp
    have p1: "0 \<le> offset + 1" using "1.prems"(1) by simp
    have p2: "offset + 1 \<le> int (length buffer)" using True by simp
    have p4: "int (iterations + 1) + (int (length buffer) - (offset + 1)) < 10"
      using "1.prems"(4) by simp
    have "\<exists>v it. readVarint_loop buffer (offset + 1)
            (val OR push_bit (shift mod 32) (ToInt32 (buffer_at buffer offset) AND 0x7f))
            (shift + 7) (iterations + 1) = (v, int (length buffer), it) \<and> it < 10"
      by (rule "1.IH" [OF c refl refl cont p1 p2 sub p4])
    then show ?thesis
      using True it cont by (subst readVarint_loop.simps) (simp add: Let_def)
  next
    case False
    then have "offset = int (length buffer)" using "1.prems"(2) by linarith
    moreover have "iterations < 10" using "1.prems"(4) calculation by linarith
    ultimately show ?thesis by (subst readVarint_loop.simps) simp
  qed
qed

lemma readVarint_truncated:
  assumes "0 \<le> offset" "offset \<le> int (length buffer)"
    "\<forall>b \<in> set (drop (nat offset) buffer). bit b 7"
    "int (length buffer) - offset < 10"
  shows "\<exists>v. readVarint buffer offset = Inr (v, int (length buffer))"
proof -
  obtain v it where "readVarint_loop buffer offset 0 0 0 = (v, int (length buffer), it)" "it < 10"
    using readVarint_loop_truncated [OF assms(1-3), of 0 0 0] assms(4) by auto
  then show ?thesis by (simp add: readVarint_def)
qed

lemma slice_past_end:
  assumes "0 \<le> newOffset" "newOffset \<le> int (length buffer)"
    "int (length buffer) < newOffset + len"
  shows "slice buffer newOffset (newOffset + len) = drop (nat newOffset) buffer"
  using assms by (auto simp: slice_def adjustOffset_def Let_def)

subsection \<open>C1: values above 32 bits\<close>

text \<open>
  C1. The claim: decoding the varint encoding of any unsigned 64-bit \<open>v\<close> gives \<open>v\<close> back, also
  above \<open>2 ^ 32\<close>. The decoder accumulates with 32-bit operators: on the five bytes that
  encode \<open>2 ^ 32\<close> it returns 0.
\<close>

theorem readVarint_drops_bits_above_32:
  "varint_encoding (2 ^ 32) = [0x80, 0x80, 0x80, 0x80, 0x10]
   \<and> readVarint (varint_encoding (2 ^ 32)) 0 = Inr (0, 5)"
  by (simp add: varint_encoding.simps readVarint_def readVarint_loop.simps buffer_at_def
      ToInt32_def)

subsection \<open>C4: truncated input\<close>

text \<open>
  C4, as stated, fails: \<open>[0xAC, 0x02]\<close> is the varint of 300; cut after its first byte it
  decodes to 44 with no error. A field that declares 5 payload bytes where 2 remain is
  returned with those 2 bytes and an offset past the end of the buffer.
\<close>

theorem truncated_input_counterexample:
  "readVarint [0xAC, 0x02] 0 = Inr (300, 2)
   \<and> readVarint [0xAC] 0 = Inr (44, 1)
   \<and> readLengthDelimited [0x05, 0x41, 0x42] 0 = Inr ([0x41, 0x42], 6)"
  by (simp add: readLengthDelimited_def slice_def adjustOffset_def readVarint_def
      readVarint_loop.simps buffer_at_def ToInt32_def)

text \<open>
  C4, amended. A buffer that ends inside a varint (every byte from the offset on has the
  continuation bit, and there are fewer than 10 of them) makes \<open>readVarint\<close> return a value and
  the length of the buffer, without an error. A length-delimited field whose declared length
  runs past the end of the buffer makes \<open>readLengthDelimited\<close> return the bytes that remain
  and the offset \<open>newOffset + len\<close>, past the end, without an error.
\<close>

theorem truncated_input_is_not_reported:
  "(0 \<le> offset \<and> offset \<le> int (length buffer) \<and> int (length buffer) - offset < 10
      \<and> (\<forall>b \<in> set (drop (nat offset) buffer). bit b 7)
     \<longrightarrow> (\<exists>v. readVarint buffer offset = Inr (v, int (length buffer))))
   \<and> (readVarint buffer offset = Inr (len, newOffset) \<and> 0 \<le> newOffset
      \<and> newOffset \<le> int (length buffer) \<and> int (length buffer) < newOffset + len
     \<longrightarrow> readLengthDelimited buffer offset = Inr (drop (nat newOffset) buffer, newOffset + len))"
proof (intro conjI impI)
  assume "0 \<le> offset \<and> offset \<le> int (length buffer) \<and> int (length buffer) - offset < 10
      \<and> (\<forall>b \<in> set (drop (nat offset) buffer). bit b 7)"
  then show "\<exists>v. readVarint buffer offset = Inr (v, int (length buffer))"
    using readVarint_truncated by blast
next
  assume a: "readVarint buffer offset = Inr (len, newOffset) \<and> 0 \<le> newOffset
      \<and> newOffset \<le> int (length buffer) \<and> int (length buffer) < newOffset + len"
  then have "slice buffer newOffset (newOffset + len) = drop (nat newOffset) buffer"
    using slice_past_end by blast
  then show "readLengthDelimited buffer offset = Inr (drop (nat newOffset) buffer, newOffset + len)"
    using a by (simp add: readLengthDelimited_def)
qed

theorem truncated_input_is_not_reported_witness:
  "(\<exists>v. readVarint [0xAC] 0 = Inr (v, 1))
   \<and> readLengthDelimited [0x05, 0x41, 0x42] 0 = Inr ([0x41, 0x42], 6)"
proof -
  have b: "bit (0xAC :: byte) 7" by simp
  have r: "readVarint [0x05, 0x41, 0x42] 0 = Inr (5, 1)"
    by (simp add: readVarint_def readVarint_loop.simps buffer_at_def ToInt32_def)
  have "\<exists>v. readVarint [0xAC] 0 = Inr (v, 1)"
    using truncated_input_is_not_reported [of 0 "[0xAC]"] b by simp
  moreover have "readLengthDelimited [0x05, 0x41, 0x42] 0 = Inr ([0x41, 0x42], 6)"
    using truncated_input_is_not_reported [of 0 "[0x05, 0x41, 0x42]" 5 1] r by simp
  ultimately show ?thesis by simp
qed

subsection \<open>C9: failures that cannot be recovered\<close>

text \<open>
  C9, as stated, fails. The buffer holds one string-table entry and then ten bytes with the
  continuation bit: no tag can be read at offset 3, and \<open>parseProtobuf\<close> returns the profile
  with that one string as its result.
\<close>

theorem parseProtobuf_unrecoverable_counterexample:
  "readTag [0x32, 0x01, 0x41, 0x80, 0x80, 0x80, 0x80, 0x80, 0x80, 0x80, 0x80, 0x80, 0x80] 3
     = Inl (InvalidVarint 3)
   \<and> parseProtobuf [0x32, 0x01, 0x41, 0x80, 0x80, 0x80, 0x80, 0x80, 0x80, 0x80, 0x80, 0x80, 0x80]
     = Some (emptyProfile\<lparr>p_stringTable := [''A'']\<rparr>)"
  by code_simp

text \<open>
  C9, amended. When the tag at the current offset cannot be read, or a field can be neither
  parsed nor skipped, \<open>parseProtobuf\<close> leaves its loop and returns the profile populated so
  far as its result; it raises nothing.
\<close>

theorem parseProtobuf_returns_profile_so_far:
  "(offset < int (length buffer) \<and> readTag buffer offset = Inl e
     \<longrightarrow> parseProtobuf_loop buffer offset profile = Some profile)
   \<and> (offset < int (length buffer) \<and> readTag buffer offset = Inr (fieldNumber, wireType, newOffset)
      \<and> 0 \<le> wireType \<and> wireType \<le> 5
      \<and> parseField buffer fieldNumber wireType newOffset profile = Some (Inl e)
      \<and> skipField buffer newOffset wireType = Inl skipError
     \<longrightarrow> parseProtobuf_loop buffer offset profile = Some profile)"
  by (subst parseProtobuf_loop.simps, subst (2) parseProtobuf_loop.simps) auto

theorem parseProtobuf_returns_profile_so_far_witness:
  "parseProtobuf_loop
     [0x32, 0x01, 0x41, 0x80, 0x80, 0x80, 0x80, 0x80, 0x80, 0x80, 0x80, 0x80, 0x80] 3
     (emptyProfile\<lparr>p_stringTable := [''A'']\<rparr>) = Some (emptyProfile\<lparr>p_stringTable := [''A'']\<rparr>)
   \<and> parseProtobuf_loop
     [0x48, 0x80, 0x80, 0x80, 0x80, 0x80, 0x80, 0x80, 0x80, 0x80, 0x80] 0 emptyProfile
     = Some emptyProfile"
proof -
  have t: "readTag [0x32, 0x01, 0x41, 0x80, 0x80, 0x80, 0x80, 0x80, 0x80, 0x80, 0x80, 0x80, 0x80] 3
     = Inl (InvalidVarint 3)"
    by code_simp
  have t2: "readTag [0x48, 0x80, 0x80, 0x80, 0x80, 0x80, 0x80, 0x80, 0x80, 0x80, 0x80] 0
     = Inr (9, 0, 1)"
    by code_simp
  have f: "parseField [0x48, 0x80, 0x80, 0x80, 0x80, 0x80, 0x80, 0x80, 0x80, 0x80, 0x80] 9 0 1
     emptyProfile = Some (Inl (InvalidVarint 1))"
    by code_simp
  have s: "skipField [0x48, 0x80, 0x80, 0x80, 0x80, 0x80, 0x80, 0x80, 0x80, 0x80, 0x80] 1 0
     = Inl (InvalidVarint 1)"
    by code_simp
  show ?thesis
    using parseProtobuf_returns_profile_so_far
      [of 3 "[0x32, 0x01, 0x41, 0x80, 0x80, 0x80, 0x80, 0x80, 0x80, 0x80, 0x80, 0x80, 0x80]"
        "InvalidVarint 3" "emptyProfile\<lparr>p_stringTable := [''A'']\<rparr>"]
      parseProtobuf_returns_profile_so_far
      [of 0 "[0x48, 0x80, 0x80, 0x80, 0x80, 0x80, 0x80, 0x80, 0x80, 0x80, 0x80]"
        "InvalidVarint 1" emptyProfile 9 0 1 "InvalidVarint 1"]
      t t2 f s
    by simp
qed

section \<open>Properties of the call tree builder\<close>

subsection \<open>Helper lemmas\<close>

lemma dom_modifyNode [simp]: "dom (nodeMap (modifyNode b node f)) = dom (nodeMap b)"
  by (auto simp: modifyNode_def split: option.splits)

lemma roots_modifyNode [simp]: "roots (modifyNode b node f) = roots b"
  by (auto simp: modifyNode_def split: option.splits)

lemma modifyNode_twice:
  "modifyNode (modifyNode b node f) node g = modifyNode b node (g \<circ> f)"
  by (auto simp: modifyNode_def split: option.splits)

lemma dom_getOrCreateNode:
  "getOrCreateNode b fName file lineNo = (b1, node) \<Longrightarrow>
   node = createNodeId fName file lineNo \<and> dom (nodeMap b1) = insert node (dom (nodeMap b))"
  by (auto simp: getOrCreateNode_def Let_def split: if_splits)

lemma childrenOf_getOrCreateNode:
  "getOrCreateNode b fName file lineNo = (b1, node) \<Longrightarrow> childrenOf b1 x = childrenOf b x"
  by (auto simp: getOrCreateNode_def Let_def childrenOf_def split: if_splits)

lemma childrenOf_modifyNode:
  "childrenOf (modifyNode b node f) x =
     (if x = node then (case nodeMap b node of None \<Rightarrow> [] | Some n \<Rightarrow> n_children (f n))
      else childrenOf b x)"
  by (auto simp: modifyNode_def childrenOf_def split: option.splits)

lemma childrenOf_modifyNode_same:
  "(\<And>n. n_children (f n) = n_children n) \<Longrightarrow> childrenOf (modifyNode b node f) x = childrenOf b x"
  by (auto simp: modifyNode_def childrenOf_def split: option.splits)

lemma childrenOf_roots [simp]: "childrenOf (b\<lparr>roots := r\<rparr>) x = childrenOf b x"
  by (simp add: childrenOf_def)


lemma childrenOf_modifyNode_mono:
  "(\<And>n. set (n_children n) \<subseteq> set (n_children (f n))) \<Longrightarrow>
   set (childrenOf b x) \<subseteq> set (childrenOf (modifyNode b node f) x)"
proof (cases "nodeMap b node")
  case None
  then show ?thesis by (simp add: modifyNode_def)
next
  case (Some n)
  assume m: "\<And>n. set (n_children n) \<subseteq> set (n_children (f n))"
  show ?thesis
  proof (cases "x = node")
    case True
    have "childrenOf (modifyNode b node f) node = n_children (f n)"
      by (simp add: childrenOf_modifyNode Some)
    moreover have "childrenOf b node = n_children n"
      by (simp add: childrenOf_def Some)
    ultimately show ?thesis using m [of n] True by simp
  next
    case False
    then show ?thesis by (simp add: childrenOf_modifyNode)
  qed
qed

lemma addFrame_stages:
  "addFrame b currentParent frame isLeaf val =
     (stage4 (stage3 (fst (getOrCreateNode b (functionName frame) (fileName frame) (line frame)))
                (frameId frame) isLeaf val) currentParent (frameId frame),
      frameId frame)"
  by (simp add: addFrame_def stage3_def stage4_def Let_def frameId_def getOrCreateNode_def)

lemma dom_stage3 [simp]: "dom (nodeMap (stage3 b node isLeaf val)) = dom (nodeMap b)"
  by (simp add: stage3_def Let_def)

lemma dom_stage4 [simp]: "dom (nodeMap (stage4 b currentParent node)) = dom (nodeMap b)"
  by (simp add: stage4_def split: option.splits)

lemma children_stage3 [simp]: "childrenOf (stage3 b node isLeaf val) x = childrenOf b x"
  by (simp add: stage3_def Let_def childrenOf_modifyNode_same)

lemma children_stage4_mono: "set (childrenOf b x) \<subseteq> set (childrenOf (stage4 b currentParent node) x)"
proof (cases currentParent)
  case None
  then show ?thesis by (simp add: stage4_def)
next
  case (Some parent)
  have 1: "set (childrenOf b x) \<subseteq> set (childrenOf (modifyNode b parent (\<lambda>p. p\<lparr>n_children := n_children p @ [node]\<rparr>)) x)"
    by (rule childrenOf_modifyNode_mono) auto
  show ?thesis
    using 1 by (simp add: stage4_def Some childrenOf_modifyNode_same)
qed

lemma children_stage4_link:
  assumes "parent \<in> dom (nodeMap b)"
  shows "node \<in> set (childrenOf (stage4 b (Some parent) node) parent)"
proof -
  obtain p where p: "nodeMap b parent = Some p" using assms by auto
  have "node \<in> set (childrenOf (modifyNode b parent (\<lambda>p. p\<lparr>n_children := n_children p @ [node]\<rparr>)) parent)"
    by (simp add: childrenOf_modifyNode p)
  then show ?thesis
    by (simp add: stage4_def childrenOf_modifyNode_same)
qed

lemma addFrame_dom:
  assumes "addFrame b currentParent frame isLeaf val = (b', node)"
  shows "node = frameId frame \<and> dom (nodeMap b') = insert (frameId frame) (dom (nodeMap b))"
proof -
  obtain b1 nd where g: "getOrCreateNode b (functionName frame) (fileName frame) (line frame) = (b1, nd)"
    by (cases "getOrCreateNode b (functionName frame) (fileName frame) (line frame)")
  from dom_getOrCreateNode [OF g] have d: "dom (nodeMap b1) = insert (frameId frame) (dom (nodeMap b))"
    by (simp add: frameId_def)
  have "b' = stage4 (stage3 b1 (frameId frame) isLeaf val) currentParent (frameId frame)"
    and "node = frameId frame"
    using assms by (auto simp: addFrame_stages g)
  then show ?thesis using d by simp
qed

lemma addFrame_children_mono:
  assumes "addFrame b currentParent frame isLeaf val = (b', node)"
  shows "set (childrenOf b x) \<subseteq> set (childrenOf b' x)"
proof -
  obtain b1 nd where g: "getOrCreateNode b (functionName frame) (fileName frame) (line frame) = (b1, nd)"
    by (cases "getOrCreateNode b (functionName frame) (fileName frame) (line frame)")
  have c1: "childrenOf b1 x = childrenOf b x"
    by (rule childrenOf_getOrCreateNode [OF g])
  have "b' = stage4 (stage3 b1 (frameId frame) isLeaf val) currentParent (frameId frame)"
    using assms by (auto simp: addFrame_stages g)
  then show ?thesis
    using children_stage4_mono [of "stage3 b1 (frameId frame) isLeaf val" x currentParent "frameId frame"]
    by (simp add: c1)
qed

lemma addFrame_link:
  assumes "addFrame b (Some parent) frame isLeaf val = (b', node)" "parent \<in> dom (nodeMap b)"
  shows "frameId frame \<in> set (childrenOf b' parent)"
proof -
  obtain b1 nd where g: "getOrCreateNode b (functionName frame) (fileName frame) (line frame) = (b1, nd)"
    by (cases "getOrCreateNode b (functionName frame) (fileName frame) (line frame)")
  from dom_getOrCreateNode [OF g] assms(2) have "parent \<in> dom (nodeMap b1)" by blast
  then have "parent \<in> dom (nodeMap (stage3 b1 (frameId frame) isLeaf val))" by simp
  from children_stage4_link [OF this, of "frameId frame"] show ?thesis
    using assms(1) by (auto simp: addFrame_stages g)
qed


lemma children_addStack_loop_mono:
  "set (childrenOf b x) \<subseteq> set (childrenOf (addStack_loop b currentParent frames val) x)"
proof (induction frames arbitrary: b currentParent)
  case Nil
  then show ?case by simp
next
  case (Cons frame rest)
  obtain b' node where a: "addFrame b currentParent frame (rest = []) val = (b', node)"
    by (cases "addFrame b currentParent frame (rest = []) val")
  from addFrame_children_mono [OF a, of x] Cons.IH [of b' "Some node"] show ?case
    by (auto simp: a)
qed

lemma link_addStack_loop:
  "frameId callee \<in> set (childrenOf (addStack_loop b currentParent (pre @ caller # callee # post) val)
     (frameId caller))"
proof (induction pre arbitrary: b currentParent)
  case Nil
  obtain b1 n1 where a1: "addFrame b currentParent caller False val = (b1, n1)"
    by (cases "addFrame b currentParent caller False val")
  obtain b2 n2 where a2: "addFrame b1 (Some (frameId caller)) callee (post = []) val = (b2, n2)"
    by (cases "addFrame b1 (Some (frameId caller)) callee (post = []) val")
  from addFrame_dom [OF a1] have n1: "n1 = frameId caller" and "frameId caller \<in> dom (nodeMap b1)"
    by simp_all
  from addFrame_link [OF a2 this(2)] have "frameId callee \<in> set (childrenOf b2 (frameId caller))" .
  then have "frameId callee \<in> set (childrenOf (addStack_loop b2 (Some n2) post val) (frameId caller))"
    using children_addStack_loop_mono by blast
  then show ?case by (simp add: a1 n1 a2)
next
  case (Cons frame pre)
  obtain b' node where a: "addFrame b currentParent frame False val = (b', node)"
    by (cases "addFrame b currentParent frame False val")
  show ?case using Cons.IH [of b' "Some node"] by (simp add: a)
qed

text \<open>The invariant of C8: no node has more self time than total time.\<close>

lemma node_ok_modify:
  assumes "\<forall>k n. nodeMap b k = Some n \<longrightarrow> n_selfTime n \<le> n_totalTime n"
    "\<And>n. n_selfTime n \<le> n_totalTime n \<Longrightarrow> n_selfTime (f n) \<le> n_totalTime (f n)"
  shows "\<forall>k n. nodeMap (modifyNode b node f) k = Some n \<longrightarrow> n_selfTime n \<le> n_totalTime n"
  using assms by (auto simp: modifyNode_def split: option.splits)

lemma node_ok_getOrCreateNode:
  assumes "\<forall>k n. nodeMap b k = Some n \<longrightarrow> n_selfTime n \<le> n_totalTime n"
  shows "\<forall>k n. nodeMap (fst (getOrCreateNode b fName file lineNo)) k = Some n
           \<longrightarrow> n_selfTime n \<le> n_totalTime n"
  using assms by (auto simp: getOrCreateNode_def Let_def)

lemma node_ok_stage3:
  assumes "\<forall>k n. nodeMap b k = Some n \<longrightarrow> n_selfTime n \<le> n_totalTime n" "0 \<le> val"
  shows "\<forall>k n. nodeMap (stage3 b node isLeaf val) k = Some n \<longrightarrow> n_selfTime n \<le> n_totalTime n"
proof (cases isLeaf)
  case True
  then have "stage3 b node isLeaf val = modifyNode b node ((\<lambda>n. n\<lparr>n_selfTime := n_selfTime n + val\<rparr>) \<circ>
      (\<lambda>n. n\<lparr>n_totalTime := n_totalTime n + val, n_samples := n_samples n + 1\<rparr>))"
    by (simp add: stage3_def Let_def modifyNode_twice)
  moreover have "\<forall>k n. nodeMap (modifyNode b node ((\<lambda>n. n\<lparr>n_selfTime := n_selfTime n + val\<rparr>) \<circ>
      (\<lambda>n. n\<lparr>n_totalTime := n_totalTime n + val, n_samples := n_samples n + 1\<rparr>))) k = Some n
      \<longrightarrow> n_selfTime n \<le> n_totalTime n"
    by (rule node_ok_modify [OF assms(1)]) simp
  ultimately show ?thesis by simp
next
  case False
  then have "stage3 b node isLeaf val = modifyNode b node
      (\<lambda>n. n\<lparr>n_totalTime := n_totalTime n + val, n_samples := n_samples n + 1\<rparr>)"
    by (simp add: stage3_def Let_def)
  moreover have "\<forall>k n. nodeMap (modifyNode b node
      (\<lambda>n. n\<lparr>n_totalTime := n_totalTime n + val, n_samples := n_samples n + 1\<rparr>)) k = Some n
      \<longrightarrow> n_selfTime n \<le> n_totalTime n"
    by (rule node_ok_modify [OF assms(1)]) (use assms(2) in simp)
  ultimately show ?thesis by simp
qed

lemma node_ok_stage4:
  assumes "\<forall>k n. nodeMap b k = Some n \<longrightarrow> n_selfTime n \<le> n_totalTime n"
  shows "\<forall>k n. nodeMap (stage4 b currentParent node) k = Some n \<longrightarrow> n_selfTime n \<le> n_totalTime n"
proof (cases currentParent)
  case None
  then show ?thesis using assms by (simp add: stage4_def)
next
  case (Some parent)
  have 1: "\<forall>k n. nodeMap (modifyNode (modifyNode b parent (\<lambda>p. p\<lparr>n_children := n_children p @ [node]\<rparr>))
             node (\<lambda>n. n\<lparr>n_parent := Some parent\<rparr>)) k = Some n \<longrightarrow> n_selfTime n \<le> n_totalTime n"
    by (rule node_ok_modify, rule node_ok_modify, rule assms) simp_all
  show ?thesis
    unfolding stage4_def Some option.case
    by (rule node_ok_modify) (use 1 assms in \<open>simp_all split: if_splits\<close>)
qed

lemma node_ok_addStack_loop:
  assumes "\<forall>k n. nodeMap b k = Some n \<longrightarrow> n_selfTime n \<le> n_totalTime n" "0 \<le> val"
  shows "\<forall>k n. nodeMap (addStack_loop b currentParent frames val) k = Some n
           \<longrightarrow> n_selfTime n \<le> n_totalTime n"
  using assms(1)
proof (induction frames arbitrary: b currentParent)
  case Nil
  then show ?case by simp
next
  case (Cons frame rest)
  let ?b4 = "stage4 (stage3 (fst (getOrCreateNode b (functionName frame) (fileName frame) (line frame)))
                (frameId frame) (rest = []) val) currentParent (frameId frame)"
  have "\<forall>k n. nodeMap ?b4 k = Some n \<longrightarrow> n_selfTime n \<le> n_totalTime n"
    by (intro node_ok_stage4 node_ok_stage3 node_ok_getOrCreateNode Cons.prems assms(2))
  from Cons.IH [OF this] show ?case
    by (simp add: addFrame_stages)
qed

lemma node_ok_fold:
  assumes "\<forall>k n. nodeMap b k = Some n \<longrightarrow> n_selfTime n \<le> n_totalTime n"
    "\<forall>(stack, val, total) \<in> set calls. 0 \<le> val"
  shows "\<forall>k n. nodeMap (fold (\<lambda>(stack, val, total) b. addStack b stack val total) calls b) k = Some n
           \<longrightarrow> n_selfTime n \<le> n_totalTime n"
  using assms
proof (induction calls arbitrary: b)
  case Nil
  then show ?case by simp
next
  case (Cons call calls)
  obtain stack val total where c: "call = (stack, val, total)" by (cases call)
  have v: "0 \<le> val" using Cons.prems(2) c by simp
  have "\<forall>k n. nodeMap (addStack b stack val total) k = Some n \<longrightarrow> n_selfTime n \<le> n_totalTime n"
    unfolding addStack_def using node_ok_addStack_loop [OF Cons.prems(1) v] Cons.prems(1) by simp
  from Cons.IH [OF this] Cons.prems(2) show ?case by (simp add: c)
qed

text \<open>Equations that evaluate the builder on concrete stacks, innermost call first.\<close>

lemma addStack_loop_Cons:
  "addStack_loop b currentParent (frame # rest) val =
     addStack_loop (fst (addFrame b currentParent frame (rest = []) val)) (Some (frameId frame)) rest val"
  by (simp add: addFrame_stages)

lemma stage3_eval:
  "stage3 b1 node isLeaf val =
     (if isLeaf then
        modifyNode (modifyNode b1 node
          (\<lambda>n. n\<lparr>n_totalTime := n_totalTime n + val, n_samples := n_samples n + 1\<rparr>))
          node (\<lambda>n. n\<lparr>n_selfTime := n_selfTime n + val\<rparr>)
      else modifyNode b1 node
          (\<lambda>n. n\<lparr>n_totalTime := n_totalTime n + val, n_samples := n_samples n + 1\<rparr>))"
  by (simp add: stage3_def Let_def)

lemma getOrCreateNode_eval:
  "fst (getOrCreateNode b fName file lineNo) =
      (if nodeMap b (createNodeId fName file lineNo) = None then
            b\<lparr>nodeMap := (nodeMap b)(createNodeId fName file lineNo \<mapsto>
              \<lparr>n_functionName = fName, n_fileName = file, n_line = lineNo, n_selfTime = 0,
               n_totalTime = 0, n_samples = 0, n_invocations = 0, n_children = [],
               n_parent = None, n_id = createNodeId fName file lineNo\<rparr>)\<rparr>
          else b)"
  by (simp add: getOrCreateNode_def Let_def)

lemmas calltree_eval = addStack_def addStack_loop_Cons addFrame_stages stage3_eval stage4_def
  getOrCreateNode_eval modifyNode_def childrenOf_def frameId_def createNodeId_def
  Number_toString_def string_of_nat.simps newCallTreeBuilder_def



lemma samplesOf_roots [simp]: "samplesOf (b\<lparr>roots := r\<rparr>) k = samplesOf b k"
  by (simp add: samplesOf_def)

lemma totalTimeOf_roots [simp]: "totalTimeOf (b\<lparr>roots := r\<rparr>) k = totalTimeOf b k"
  by (simp add: totalTimeOf_def)












lemma occurrences_rev [simp]: "occurrences k (rev stack) = occurrences k stack"
  by (simp add: occurrences_def rev_filter [symmetric])

lemma occurrences_Nil [simp]: "occurrences k [] = 0"
  by (simp add: occurrences_def)



























subsection \<open>C3: one node per identity, whatever the parent\<close>




subsection \<open>C8: total time and self time\<close>

text \<open>
  C8, as stated, fails for a negative sample value (the values of a profile are signed): the
  stack \<open>[a, b]\<close> with value \<open>-5\<close> leaves the root \<open>b\<close> with self time 0 and total time \<open>-5\<close>.
\<close>

theorem totalTime_below_selfTime_counterexample:
  "map_option (\<lambda>n. (n_selfTime n, n_totalTime n)) (nodeMap
     (addStack newCallTreeBuilder
        [\<lparr>functionName = ''a'', fileName = ''f'', line = 1\<rparr>,
         \<lparr>functionName = ''b'', fileName = ''f'', line = 2\<rparr>] (- 5) 0)
     ''f:2:b'') = Some (0, - 5)"
  by (simp add: calltree_eval del: addStack_loop.simps(2))

text \<open>
  C8, amended. After any sequence of \<open>addStack\<close> calls whose values are not negative, the total
  time of every node is at least its self time.
\<close>

theorem totalTime_ge_selfTime:
  "(\<forall>(stack, val, total) \<in> set calls. 0 \<le> val) \<Longrightarrow> nodeMap (addStacks calls) node = Some n
   \<Longrightarrow> n_selfTime n \<le> n_totalTime n"
proof -
  assume a: "\<forall>(stack, val, total) \<in> set calls. 0 \<le> val"
    and b: "nodeMap (addStacks calls) node = Some n"
  have e: "\<forall>k n. nodeMap newCallTreeBuilder k = Some n \<longrightarrow> n_selfTime n \<le> n_totalTime n"
    by (simp add: newCallTreeBuilder_def)
  have "\<forall>k n. nodeMap (addStacks calls) k = Some n \<longrightarrow> n_selfTime n \<le> n_totalTime n"
    unfolding addStacks_def by (rule node_ok_fold [OF e a])
  then show ?thesis using b by blast
qed

theorem totalTime_ge_selfTime_witness:
  "\<exists>n. nodeMap
     (addStacks
       [([\<lparr>functionName = ''a'', fileName = ''f'', line = 1\<rparr>,
          \<lparr>functionName = ''b'', fileName = ''f'', line = 2\<rparr>], 5, 0)])
     ''f:2:b'' = Some n \<and> n_selfTime n = 0 \<and> n_totalTime n = 5 \<and> n_selfTime n \<le> n_totalTime n"
proof -
  have h: "\<forall>(stack, val, total) \<in> set
       [([\<lparr>functionName = ''a'', fileName = ''f'', line = 1\<rparr>,
          \<lparr>functionName = ''b'', fileName = ''f'', line = 2\<rparr>], 5 :: int, 0 :: int)]. 0 \<le> val"
    by simp
  have "addStacks
       [([\<lparr>functionName = ''a'', fileName = ''f'', line = 1\<rparr>,
          \<lparr>functionName = ''b'', fileName = ''f'', line = 2\<rparr>], 5, 0)]
     = addStack newCallTreeBuilder
       [\<lparr>functionName = ''a'', fileName = ''f'', line = 1\<rparr>,
        \<lparr>functionName = ''b'', fileName = ''f'', line = 2\<rparr>] 5 0"
    by (simp add: addStacks_def)
  then have e: "nodeMap
     (addStacks
       [([\<lparr>functionName = ''a'', fileName = ''f'', line = 1\<rparr>,
          \<lparr>functionName = ''b'', fileName = ''f'', line = 2\<rparr>], 5, 0)])
     ''f:2:b'' = Some \<lparr>n_functionName = ''b'', n_fileName = ''f'', n_line = 2, n_selfTime = 0,
       n_totalTime = 5, n_samples = 1, n_invocations = 0, n_children = [''f:1:a''],
       n_parent = None, n_id = ''f:2:b''\<rparr>"
    by (simp add: calltree_eval del: addStack_loop.simps(2))
  from totalTime_ge_selfTime [OF h e] e show ?thesis by simp
qed

section \<open>Properties of the aggregator\<close>

subsection \<open>Helper lemmas\<close>



lemmas parser_eval = PprofParser_parseProtobuf_def functionMap_def locationMap_def stringAt_def
  orDefault_def sampleValueOf_def firstValue_def fileNameOf_def functionNameOf_def metricsKey_def
  sampleUnit_def sampleTypeName_def emptyProfile_def sortChildren_def stackFrame_def
  sampleLocation_def roundToDouble_eval

subsection \<open>C5: direct recursion\<close>

text \<open>
  C5. The claim: a stack in which the same function id occurs twice in a row adds the value
  of its sample to the total time of that function's node once. The parser skips a location
  id it has seen in the sample, not a function id: two locations of the function \<open>f\<close> (the
  recursive call at line 12, the sampled line 15) give two frames of the same node, and the
  sample's value 5 is added twice.
\<close>

theorem recursion_counted_per_location:
  "map_option n_totalTime
     (ag_nodes (PprofParser_parseProtobuf toLowerCase
       (emptyProfile\<lparr>
          p_sampleType := [\<lparr>st_type = 1, st_unit = 2\<rparr>],
          p_sample := [\<lparr>s_locationId = [1, 2], s_value = [5], s_label = []\<rparr>],
          p_location :=
            [\<lparr>loc_id = 1, loc_mappingId = 0, loc_address = 0,
               loc_line = [\<lparr>ln_functionId = 7, ln_line = 12\<rparr>]\<rparr>,
             \<lparr>loc_id = 2, loc_mappingId = 0, loc_address = 0,
               loc_line = [\<lparr>ln_functionId = 7, ln_line = 15\<rparr>]\<rparr>],
          p_function :=
            [\<lparr>fn_id = 7, fn_name = 3, fn_systemName = 3, fn_filename = 4, fn_startLine = 10\<rparr>],
          p_stringTable := [[], ''samples'', ''count'', ''f'', ''a.go'']\<rparr>))
       ''a.go:10:f'') = Some 10"
  by (simp add: parser_eval calltree_eval del: addStack_loop.simps(2))

subsection \<open>C6: the total duration\<close>




subsection \<open>C2: declaration line and sample line\<close>

text \<open>
  C2. The claim: the node of a frame carries the start line of the frame's function. A node
  is found by its id string \<open>fileName:line:functionName\<close>, which two different frames can
  share: the function \<open>f\<close> of the file \<open>a:1\<close>, declared at line 2, and the function \<open>2:f\<close> of the
  file \<open>a\<close>, declared at line 1, both have the id \<open>a:1:2:f\<close>. The frame of the second function
  (sampled at line 7, declared at line 1) gets the node built for the first one, whose
  line is 2. The line metrics are keyed by the sample lines 5 and 7.
\<close>

theorem node_id_collision:
  "createNodeId ''f'' ''a:1'' 2 = createNodeId ''2:f'' ''a'' 1
   \<and> map_option n_line
     (ag_nodes (PprofParser_parseProtobuf toLowerCase
       (emptyProfile\<lparr>
          p_sample := [\<lparr>s_locationId = [1], s_value = [1], s_label = []\<rparr>,
                       \<lparr>s_locationId = [2], s_value = [1], s_label = []\<rparr>],
          p_location :=
            [\<lparr>loc_id = 1, loc_mappingId = 0, loc_address = 0,
               loc_line = [\<lparr>ln_functionId = 1, ln_line = 5\<rparr>]\<rparr>,
             \<lparr>loc_id = 2, loc_mappingId = 0, loc_address = 0,
               loc_line = [\<lparr>ln_functionId = 2, ln_line = 7\<rparr>]\<rparr>],
          p_function :=
            [\<lparr>fn_id = 1, fn_name = 2, fn_systemName = 2, fn_filename = 1, fn_startLine = 2\<rparr>,
             \<lparr>fn_id = 2, fn_name = 4, fn_systemName = 4, fn_filename = 3, fn_startLine = 1\<rparr>],
          p_stringTable := [[], ''a:1'', ''f'', ''a'', ''2:f'']\<rparr>))
       (createNodeId ''2:f'' ''a'' 1)) = Some 2"
  by (simp add: parser_eval calltree_eval del: addStack_loop.simps(2))

section \<open>Properties of parseBuffer\<close>

subsection \<open>Helper lemmas\<close>

lemma headerLoop_no_total:
  "\<forall>l \<in> set ls. matchTotal l = None \<Longrightarrow> fst (headerLoop ls totalSamples durationNs) = totalSamples"
  by (induction ls arbitrary: totalSamples durationNs) simp_all

lemma headerLoop_no_duration:
  "\<forall>l \<in> set ls. matchDuration l = None \<Longrightarrow> snd (headerLoop ls totalSamples durationNs) = durationNs"
  by (induction ls arbitrary: totalSamples durationNs) simp_all

text \<open>A buffer of \<open>n\<close> letters \<open>A\<close>.\<close>

lemma buffer_at_replicate: "0 < n \<Longrightarrow> buffer_at (replicate n b) 0 = Some b"
  by (simp add: buffer_at_def)

lemma utf16Length_replicate: "utf16Length (replicate n 0x41) = n"
  by (induction n) (simp_all add: utf16Length_def)

lemma Buffer_toString_too_long:
  "Buffer_toString (replicate 1073741824 0x41) = Inl ERR_STRING_TOO_LONG"
  by (simp add: Buffer_toString_def utf16Length_replicate)

lemma toString_utf8_hi: "toString_utf8 [0x68, 0x69] = ''hi''"
  by code_simp

lemma utf16Length_hi: "utf16Length [0x68, 0x69] = 2"
  by (simp add: utf16Length_def)

lemma Buffer_toString_hi: "Buffer_toString [0x68, 0x69] = Inr ''hi''"
  by (simp add: Buffer_toString_def utf16Length_hi toString_utf8_hi)

subsection \<open>C10: the fallback to the text format\<close>

text \<open>
  C10, as stated, fails: the text branch decodes the whole buffer into one string, and
  \<^verbatim>\<open>buffer.toString\<close> throws when that string would be too long. A buffer of 1073741824
  letters \<open>A\<close> (\<open>2 ^ 30\<close> bytes) starts with none of the three bytes, and \<open>parseBuffer\<close> raises.
\<close>

theorem parseBuffer_raises_counterexample:
  "parseBuffer Buffer_toString (\<lambda>b. Inl ()) (replicate 1073741824 0x41)
     = Inl (FailedToParse ERR_STRING_TOO_LONG)"
proof -
  have "buffer_at (replicate 1073741824 0x41) 0 = Some (0x41 :: byte)"
    by (rule buffer_at_replicate) simp
  then show ?thesis
    by (simp add: parseBuffer_def Buffer_toString_too_long)
qed

text \<open>
  C10, amended. For a buffer whose first byte is none of 0x1f, 0x0a and 0x12 (or that has no
  byte at all), and whatever the decoder and the protobuf method do: if the decoder throws,
  \<open>parseBuffer\<close> raises its one error with that cause; if the decoder returns the text,
  \<open>parseBuffer\<close> returns the profile that \<open>parseTextFormat\<close> makes of it. That profile has no
  file metrics and no top functions; its sample count is 1000 when no line matches the
  \<open>Total:\<close> header, and its duration is \<open>10e9\<close> when no line matches the \<open>Duration:\<close> header.
\<close>

theorem parseBuffer_text_fallback:
  assumes "\<forall>b. buffer_at buffer 0 = Some b \<longrightarrow> b \<noteq> 0x1f \<and> b \<noteq> 0x0a \<and> b \<noteq> 0x12"
  shows "parseBuffer toString parseProtobufMethod buffer
           = (case toString buffer of
                Inl thrown \<Rightarrow> Inl (FailedToParse thrown)
              | Inr text \<Rightarrow> Inr (parseTextFormat text))
         \<and> pd_fileMetrics (parseTextFormat text) = []
         \<and> pd_topFunctions (parseTextFormat text) = []
         \<and> ((\<forall>l \<in> set (splitOn CHR 0x0A text). matchTotal l = None)
              \<longrightarrow> pd_totalSamples (parseTextFormat text) = 1000)
         \<and> ((\<forall>l \<in> set (splitOn CHR 0x0A text). matchDuration l = None)
              \<longrightarrow> pd_durationNs (parseTextFormat text) = 10000000000)"
proof -
  have fallback: "parseBuffer toString parseProtobufMethod buffer
           = (case toString buffer of
                Inl thrown \<Rightarrow> Inl (FailedToParse thrown)
              | Inr text \<Rightarrow> Inr (parseTextFormat text))"
    using assms by (auto simp: parseBuffer_def)
  obtain t d where h: "headerLoop (splitOn CHR 0x0A text) 0 (Some 0) = (t, d)"
    by (cases "headerLoop (splitOn CHR 0x0A text) 0 (Some 0)")
  have total: "t = 0" if "\<forall>l \<in> set (splitOn CHR 0x0A text). matchTotal l = None"
    using headerLoop_no_total [OF that, of 0 "Some 0"] h by simp
  have duration: "d = Some 0" if "\<forall>l \<in> set (splitOn CHR 0x0A text). matchDuration l = None"
    using headerLoop_no_duration [OF that, of 0 "Some 0"] h by simp
  show ?thesis
    unfolding fallback using total duration by (auto simp: parseTextFormat_def h)
qed

text \<open>The text \<open>hi\<close> has no header and gives the two defaults; the buffer of \<open>2 ^ 30\<close> letters
  \<open>A\<close> is not decoded.\<close>

theorem parseBuffer_text_fallback_witness:
  "(\<exists>pd. parseBuffer Buffer_toString (\<lambda>b. Inl ()) [0x68, 0x69] = Inr pd
      \<and> pd = parseTextFormat ''hi''
      \<and> pd_fileMetrics pd = [] \<and> pd_topFunctions pd = []
      \<and> pd_totalSamples pd = 1000 \<and> pd_durationNs pd = 10000000000)
   \<and> parseBuffer Buffer_toString (\<lambda>b. Inl ()) (replicate 1073741824 0x41)
       = Inl (FailedToParse ERR_STRING_TOO_LONG)"
proof -
  have f: "\<forall>b. buffer_at [0x68, 0x69] 0 = Some b \<longrightarrow> b \<noteq> 0x1f \<and> b \<noteq> 0x0a \<and> b \<noteq> 0x12"
    by (simp add: buffer_at_def)
  have t: "\<forall>l \<in> set (splitOn CHR 0x0A ''hi''). matchTotal l = None"
    by (simp add: matchTotalAt_def startsWith_def)
  have d: "\<forall>l \<in> set (splitOn CHR 0x0A ''hi''). matchDuration l = None"
    by (simp add: matchDurationAt_def startsWith_def)
  note small = parseBuffer_text_fallback [OF f, of Buffer_toString "\<lambda>b. Inl ()" "''hi''"]
  have 1: "\<exists>pd. parseBuffer Buffer_toString (\<lambda>b. Inl ()) [0x68, 0x69] = Inr pd
      \<and> pd = parseTextFormat ''hi''
      \<and> pd_fileMetrics pd = [] \<and> pd_topFunctions pd = []
      \<and> pd_totalSamples pd = 1000 \<and> pd_durationNs pd = 10000000000"
    using small t d by (simp add: Buffer_toString_hi)
  have a: "buffer_at (replicate 1073741824 0x41) 0 = Some (0x41 :: byte)"
    by (rule buffer_at_replicate) simp
  have g: "\<forall>b. buffer_at (replicate 1073741824 0x41) 0 = Some (b :: byte)
             \<longrightarrow> b \<noteq> 0x1f \<and> b \<noteq> 0x0a \<and> b \<noteq> 0x12"
    unfolding a by simp
  note big = parseBuffer_text_fallback [OF g, of Buffer_toString "\<lambda>b. Inl ()" "[]"]
  have 2: "parseBuffer Buffer_toString (\<lambda>b. Inl ()) (replicate 1073741824 0x41)
       = Inl (FailedToParse ERR_STRING_TOO_LONG)"
    using big by (simp add: Buffer_toString_too_long)
  from 1 2 show ?thesis by (rule conjI)
qed

section \<open>Properties of the resolver\<close>

subsection \<open>Helper lemmas\<close>

lemma spec_hintScore_le: "spec_hintScore hints p \<le> 100"
  by (simp add: spec_hintScore_def)

lemma spec_hintScore_Cons:
  "spec_hintScore (h # hints) p =
     (if str_includes p (''/'' @ h @ ''/'') then 100
      else if str_includes p h then max 50 (spec_hintScore hints p)
      else spec_hintScore hints p)"
  by (auto simp: spec_hintScore_def)

lemma hintScore_loop_eq:
  "hintScore_loop p hints m = max m (spec_hintScore hints p)"
proof (induction hints arbitrary: m)
  case Nil
  then show ?case by (simp add: spec_hintScore_def)
next
  case (Cons h hints)
  have "spec_hintScore hints p \<le> 100" by (rule spec_hintScore_le)
  then show ?case
    by (simp add: Cons.IH spec_hintScore_Cons max_def)
qed

lemma consecutiveMatches_eq:
  "consecutiveMatches ps fs = length (takeWhile (\<lambda>(p, f). p = f) (zip ps fs))"
  by (induction ps fs rule: consecutiveMatches.induct) simp_all

lemma segmentBonus_eq:
  "segmentBonus ps fs score = score + 5 * length (filter (\<lambda>p. p \<in> set fs) ps)"
  by (induction ps arbitrary: score) simp_all

lemma candidateScore_eq:
  "candidateScore toLowerCase hints profileParts filePath =
     spec_hintScore hints (toLowerCase filePath)
     + 10 * length (takeWhile (\<lambda>(p, f). p = f) (zip (rev profileParts) (rev (pathSegments filePath))))
     + 5 * length (filter (\<lambda>p. p \<in> set (pathSegments filePath)) profileParts)"
  by (simp add: candidateScore_def hintScore_loop_eq consecutiveMatches_eq segmentBonus_eq)

text \<open>The loop over the candidates keeps the first candidate of the highest score above
  the score it starts with, or what it starts with when there is none.\<close>

lemma selectBest_result:
  "((\<forall>f \<in> set cands. candidateScore toLowerCase hints pp f \<le> bestScore)
      \<longrightarrow> selectBest toLowerCase hints pp cands bestMatch bestScore = bestMatch)
   \<and> (\<not> (\<forall>f \<in> set cands. candidateScore toLowerCase hints pp f \<le> bestScore)
      \<longrightarrow> (\<exists>pre f post. cands = pre @ f # post
           \<and> selectBest toLowerCase hints pp cands bestMatch bestScore = Some f
           \<and> bestScore < candidateScore toLowerCase hints pp f
           \<and> (\<forall>g \<in> set pre. candidateScore toLowerCase hints pp g < candidateScore toLowerCase hints pp f)
           \<and> (\<forall>g \<in> set post. candidateScore toLowerCase hints pp g \<le> candidateScore toLowerCase hints pp f)))"
proof (induction cands arbitrary: bestMatch bestScore)
  case Nil
  then show ?case by simp
next
  case (Cons cand cands)
  let ?sc = "candidateScore toLowerCase hints pp"
  show ?case
  proof (cases "?sc cand > bestScore")
    case True
    note IH = Cons.IH [where bestMatch = "Some cand" and bestScore = "?sc cand"]
    have neg: "\<not> (\<forall>f \<in> set (cand # cands). ?sc f \<le> bestScore)" using True by auto
    show ?thesis
    proof (cases "\<forall>f \<in> set cands. ?sc f \<le> ?sc cand")
      case all: True
      then have "selectBest toLowerCase hints pp cands (Some cand) (?sc cand) = Some cand"
        using IH by blast
      then have 2: "selectBest toLowerCase hints pp (cand # cands) bestMatch bestScore = Some cand"
        using True by simp
      have 1: "cand # cands = [] @ cand # cands" by simp
      have 4: "\<forall>g \<in> set []. ?sc g < ?sc cand" by simp
      show ?thesis using neg 1 2 True 4 all by blast
    next
      case False
      then obtain pre f post where d: "cands = pre @ f # post"
        and r: "selectBest toLowerCase hints pp cands (Some cand) (?sc cand) = Some f"
        and lt: "?sc cand < ?sc f"
        and pre: "\<forall>g \<in> set pre. ?sc g < ?sc f"
        and post: "\<forall>g \<in> set post. ?sc g \<le> ?sc f"
        using IH by blast
      have 1: "cand # cands = (cand # pre) @ f # post" using d by simp
      have 2: "selectBest toLowerCase hints pp (cand # cands) bestMatch bestScore = Some f"
        using True r by simp
      have 3: "bestScore < ?sc f" using True lt by simp
      have 4: "\<forall>g \<in> set (cand # pre). ?sc g < ?sc f" using pre lt by simp
      show ?thesis using neg 1 2 3 4 post by blast
    qed
  next
    case low: False
    note IH = Cons.IH [where bestMatch = bestMatch and bestScore = bestScore]
    have step: "selectBest toLowerCase hints pp (cand # cands) bestMatch bestScore
                  = selectBest toLowerCase hints pp cands bestMatch bestScore"
      using low by simp
    show ?thesis
    proof (cases "\<forall>f \<in> set cands. ?sc f \<le> bestScore")
      case True
      then have "\<forall>f \<in> set (cand # cands). ?sc f \<le> bestScore" using low by auto
      moreover have "selectBest toLowerCase hints pp (cand # cands) bestMatch bestScore = bestMatch"
        using IH True step by simp
      ultimately show ?thesis by blast
    next
      case False
      then obtain pre f post where d: "cands = pre @ f # post"
        and r: "selectBest toLowerCase hints pp cands bestMatch bestScore = Some f"
        and lt: "bestScore < ?sc f"
        and pre: "\<forall>g \<in> set pre. ?sc g < ?sc f"
        and post: "\<forall>g \<in> set post. ?sc g \<le> ?sc f"
        using IH by blast
      have 1: "cand # cands = (cand # pre) @ f # post" using d by simp
      have 2: "selectBest toLowerCase hints pp (cand # cands) bestMatch bestScore = Some f"
        using step r by simp
      have 4: "\<forall>g \<in> set (cand # pre). ?sc g < ?sc f" using pre lt low by auto
      have neg: "\<not> (\<forall>f \<in> set (cand # cands). ?sc f \<le> bestScore)" using False by auto
      show ?thesis using neg 1 2 lt 4 post by blast
    qed
  qed
qed

subsection \<open>C7: scoring and selection\<close>

text \<open>
  C7, as stated, fails twice. The hints are lower-cased and so is the candidate path before
  the containment tests (on these paths of ASCII characters \<^verbatim>\<open>toLowerCase\<close> is
  \<open>asciiLowerCase\<close>): the candidate \<open>/Users/me/CheckoutService/main.go\<close> does not contain
  the hint \<open>checkoutservice\<close>, and still scores 100 for it (115 in all, where the claim's
  words give 15). And a single candidate is returned without being scored: the profiled
  path \<open>/app/[id].tsx\<close> with the one candidate \<open>/w/pages/i.tsx\<close>, whose score is 0, yields
  that candidate.
\<close>

theorem candidate_scoring_counterexample:
  "serviceHintsOf asciiLowerCase ''/usr/src/app/src/checkoutservice/main.go''
     (Some ''main.(*checkoutService).PlaceOrder'') None = [''checkoutservice'']
   \<and> candidateScore asciiLowerCase [''checkoutservice'']
        (pathSegments ''/usr/src/app/src/checkoutservice/main.go'')
        ''/Users/me/CheckoutService/main.go'' = 115
   \<and> spec_candidateScore [''checkoutservice'']
        (pathSegments ''/usr/src/app/src/checkoutservice/main.go'')
        ''/Users/me/CheckoutService/main.go'' = 15
   \<and> findFileInWorkspace asciiLowerCase False True [''/w/pages/i.tsx''] ''/app/[id].tsx'' None None
        = Some ''/w/pages/i.tsx''
   \<and> candidateScore asciiLowerCase (serviceHintsOf asciiLowerCase ''/app/[id].tsx'' None None)
        (pathSegments ''/app/[id].tsx'') ''/w/pages/i.tsx'' = 0"
  by code_simp

text \<open>
  C7, amended, for whatever \<^verbatim>\<open>toLowerCase\<close> does to a string. The score of a candidate is
  100 if its lower-cased path contains \<open>/hint/\<close> for any extracted (lower-cased) hint, else 50
  if it contains a hint; plus 10 for every segment shared from the end of both paths; plus 5 for every segment of the profiled path
  that is a segment of the candidate. No candidate yields no match; a single candidate is
  returned as it is, without a score. With two or more candidates, scores that are all
  zero yield no match; otherwise the result is the first candidate of the highest score.
\<close>

theorem candidate_scoring_and_selection:
  "candidateScore toLowerCase hints profileParts filePath =
     spec_hintScore hints (toLowerCase filePath)
     + 10 * length (takeWhile (\<lambda>(p, f). p = f)
                      (zip (rev profileParts) (rev (pathSegments filePath))))
     + 5 * length (filter (\<lambda>p. p \<in> set (pathSegments filePath)) profileParts)
   \<and> findFileInWorkspace toLowerCase False True [] profilePath fName profile = None
   \<and> findFileInWorkspace toLowerCase False True [only] profilePath fName profile = Some only
   \<and> (2 \<le> length files
        \<and> (\<forall>f \<in> set files. candidateScore toLowerCase (serviceHintsOf toLowerCase profilePath fName profile)
                              (pathSegments profilePath) f = 0)
      \<longrightarrow> findFileInWorkspace toLowerCase False True files profilePath fName profile = None)
   \<and> (2 \<le> length files
        \<and> (\<exists>f \<in> set files. 0 < candidateScore toLowerCase (serviceHintsOf toLowerCase profilePath fName profile)
                                  (pathSegments profilePath) f)
      \<longrightarrow> (\<exists>pre f post. files = pre @ f # post
            \<and> findFileInWorkspace toLowerCase False True files profilePath fName profile = Some f
            \<and> (\<forall>g \<in> set pre. candidateScore toLowerCase (serviceHintsOf toLowerCase profilePath fName profile)
                                   (pathSegments profilePath) g
                               < candidateScore toLowerCase (serviceHintsOf toLowerCase profilePath fName profile)
                                   (pathSegments profilePath) f)
            \<and> (\<forall>g \<in> set post. candidateScore toLowerCase (serviceHintsOf toLowerCase profilePath fName profile)
                                   (pathSegments profilePath) g
                               \<le> candidateScore toLowerCase (serviceHintsOf toLowerCase profilePath fName profile)
                                   (pathSegments profilePath) f)))"
proof (intro conjI impI)
  let ?H = "serviceHintsOf toLowerCase profilePath fName profile"
  let ?P = "pathSegments profilePath"
  show "candidateScore toLowerCase hints profileParts filePath =
     spec_hintScore hints (toLowerCase filePath)
     + 10 * length (takeWhile (\<lambda>(p, f). p = f)
                      (zip (rev profileParts) (rev (pathSegments filePath))))
     + 5 * length (filter (\<lambda>p. p \<in> set (pathSegments filePath)) profileParts)"
    by (rule candidateScore_eq)
  show "findFileInWorkspace toLowerCase False True [] profilePath fName profile = None"
    by (simp add: findFileInWorkspace_def)
  show "findFileInWorkspace toLowerCase False True [only] profilePath fName profile = Some only"
    by (simp add: findFileInWorkspace_def)
  {
    assume a: "2 \<le> length files \<and> (\<forall>f \<in> set files. candidateScore toLowerCase ?H ?P f = 0)"
    then have "\<forall>f \<in> set files. candidateScore toLowerCase ?H ?P f \<le> 0" by simp
    then have "selectBest toLowerCase ?H ?P files None 0 = None"
      using selectBest_result [where cands = files and toLowerCase = toLowerCase and hints = "?H"
          and pp = "?P" and bestScore = 0 and bestMatch = None] by blast
    then show "findFileInWorkspace toLowerCase False True files profilePath fName profile = None"
      using a by (simp add: findFileInWorkspace_def)
  }
  {
    assume a: "2 \<le> length files \<and> (\<exists>f \<in> set files. 0 < candidateScore toLowerCase ?H ?P f)"
    then have "\<not> (\<forall>f \<in> set files. candidateScore toLowerCase ?H ?P f \<le> 0)" by auto
    then obtain pre f post where "files = pre @ f # post"
      "selectBest toLowerCase ?H ?P files None 0 = Some f"
      "\<forall>g \<in> set pre. candidateScore toLowerCase ?H ?P g < candidateScore toLowerCase ?H ?P f"
      "\<forall>g \<in> set post. candidateScore toLowerCase ?H ?P g \<le> candidateScore toLowerCase ?H ?P f"
      using selectBest_result [where cands = files and toLowerCase = toLowerCase and hints = "?H"
          and pp = "?P" and bestScore = 0 and bestMatch = None] by blast
    moreover have "findFileInWorkspace toLowerCase False True files profilePath fName profile
                     = selectBest toLowerCase ?H ?P files None 0"
      using a by (simp add: findFileInWorkspace_def)
    ultimately show "\<exists>pre f post. files = pre @ f # post
            \<and> findFileInWorkspace toLowerCase False True files profilePath fName profile = Some f
            \<and> (\<forall>g \<in> set pre. candidateScore toLowerCase ?H ?P g < candidateScore toLowerCase ?H ?P f)
            \<and> (\<forall>g \<in> set post. candidateScore toLowerCase ?H ?P g \<le> candidateScore toLowerCase ?H ?P f)"
      by auto
  }
qed

text \<open>The example of the spec: the candidate under \<open>checkoutservice\<close> scores 150, the one
  under \<open>frontend\<close> 25, and the first is chosen although it is discovered second.\<close>

theorem candidate_scoring_and_selection_witness:
  "candidateScore asciiLowerCase
     (serviceHintsOf asciiLowerCase ''/usr/src/app/src/checkoutservice/main.go''
        (Some ''main.(*checkoutService).PlaceOrder'') None)
     (pathSegments ''/usr/src/app/src/checkoutservice/main.go'')
     ''/w/src/checkoutservice/main.go'' = 150
   \<and> candidateScore asciiLowerCase
     (serviceHintsOf asciiLowerCase ''/usr/src/app/src/checkoutservice/main.go''
        (Some ''main.(*checkoutService).PlaceOrder'') None)
     (pathSegments ''/usr/src/app/src/checkoutservice/main.go'')
     ''/w/src/frontend/main.go'' = 25
   \<and> findFileInWorkspace asciiLowerCase False True
       [''/w/src/frontend/main.go'', ''/w/src/checkoutservice/main.go'']
       ''/usr/src/app/src/checkoutservice/main.go''
       (Some ''main.(*checkoutService).PlaceOrder'') None
     = Some ''/w/src/checkoutservice/main.go''"
proof -
  define P where "P = ''/usr/src/app/src/checkoutservice/main.go''"
  define N where "N = Some ''main.(*checkoutService).PlaceOrder''"
  define F where "F = ''/w/src/frontend/main.go''"
  define C where "C = ''/w/src/checkoutservice/main.go''"
  have c: "candidateScore asciiLowerCase (serviceHintsOf asciiLowerCase P N None) (pathSegments P) C = 150"
    unfolding P_def N_def C_def by code_simp
  have f: "candidateScore asciiLowerCase (serviceHintsOf asciiLowerCase P N None) (pathSegments P) F = 25"
    unfolding P_def N_def F_def by code_simp
  have h: "2 \<le> length [F, C]
      \<and> (\<exists>f \<in> set [F, C]. 0 < candidateScore asciiLowerCase (serviceHintsOf asciiLowerCase P N None) (pathSegments P) f)"
    using c by simp
  note sel = candidate_scoring_and_selection [where toLowerCase = asciiLowerCase and hints = "[]"
      and profileParts = "[]" and filePath = "[]" and profilePath = P and fName = N
      and profile = None and only = F and files = "[F, C]",
      THEN conjunct2, THEN conjunct2, THEN conjunct2, THEN conjunct2, THEN mp, OF h]
  then obtain pre x post where d: "[F, C] = pre @ x # post"
    and r: "findFileInWorkspace asciiLowerCase False True [F, C] P N None = Some x"
    and post: "\<forall>g \<in> set post. candidateScore asciiLowerCase (serviceHintsOf asciiLowerCase P N None) (pathSegments P) g
                 \<le> candidateScore asciiLowerCase (serviceHintsOf asciiLowerCase P N None) (pathSegments P) x"
    by blast
  have "x = C"
  proof (cases pre)
    case Nil
    then have "x = F" "post = [C]" using d by simp_all
    then show ?thesis using post c f by simp
  next
    case (Cons a pre')
    then show ?thesis using d by (cases pre') simp_all
  qed
  then have "findFileInWorkspace asciiLowerCase False True [F, C] P N None = Some C"
    using r by simp
  then show ?thesis
    using c f unfolding P_def N_def F_def C_def by (intro conjI) assumption+
qed

end
